theory Spec2Isabelle
  imports Complex_Main "HOL-Library.Word"
begin

unbundle bit_operations_syntax

section \<open>The packed binary matrix of \<open>binary_matrix.h\<close>\<close>

text \<open>
  A shallow embedding of the bit-packed boolean matrix, its lazy expression nodes, its
  block views, its reduction visitors and its comparison operators.

  Conventions of the embedding.
  \<^item> A bitpack (\<open>std::uintmax_t\<close>, \<open>PackSize = sizeof(std::uintmax_t) * 8\<close>) is a
    \<open>64 word\<close>.
  \<^item> The C++ \<open>int\<close> values (indices, dimensions) are mathematical integers, and a
    sum or product of them is the mathematical one. That is the C++ result as long as it
    is at most \<open>INT_MAX\<close>; beyond it the C++ overflows (undefined, the usual build wraps
    around) and the model does not follow. A theorem about sizes says so with a bound.
    Division and remainder on them truncate towards zero (\<open>cdiv\<close>, \<open>cmod\<close>).
  \<^item> The one \<open>double\<close> computation, the row offset of a block's bitpack, is done as
    IEEE 754 binary64 does it: each operation rounded to nearest, ties to even.
  \<^item> Every way the C++ can fail to produce a value is a value \<open>Inl e\<close> of the result:
    a failed \<open>fdapde_assert\<close>, an index outside the storage vector, a shift whose
    count is negative or not smaller than the width of the word, a division by zero.
  \<^item> Template parameters \<open>Rows\<close>, \<open>Cols\<close> are \<open>int option\<close>: \<open>None\<close> is
    \<open>Dynamic\<close>. What the C++ rejects at compile time (\<open>static_assert\<close>,
    \<open>requires\<close>, \<open>enable_if\<close>) is not part of the run-time model.
\<close>

subsection \<open>Machine arithmetic and failures\<close>

datatype error = AssertionFailure | OutOfBounds | UndefinedShift | DivisionByZero | NoSuchMember

type_synonym BitPackType = "64 word"

abbreviation PackSize :: int where
  "PackSize \<equiv> 64"

abbreviation INT_MAX :: int where
  "INT_MAX \<equiv> 2147483647"

definition cdiv :: "int \<Rightarrow> int \<Rightarrow> int" where
  \<comment> \<open>\<open>a / b\<close> on C++ \<open>int\<close>: the quotient truncated towards zero\<close>
  "cdiv a b = sgn a * sgn b * (\<bar>a\<bar> div \<bar>b\<bar>)"

definition cmod :: "int \<Rightarrow> int \<Rightarrow> int" where
  \<comment> \<open>\<open>a % b\<close> on C++ \<open>int\<close>: the remainder has the sign of the dividend\<close>
  "cmod a b = a - b * cdiv a b"

definition ebind :: "error + 'a \<Rightarrow> ('a \<Rightarrow> error + 'b) \<Rightarrow> error + 'b" where
  \<comment> \<open>sequencing: the first failure ends the computation\<close>
  "ebind r f = (case r of Inl e \<Rightarrow> Inl e | Inr x \<Rightarrow> f x)"

definition fdapde_assert :: "bool \<Rightarrow> (error + 'a) \<Rightarrow> error + 'a" where
  \<comment> \<open>Modelled from the spec: the macro \<open>fdapde_assert\<close> of \<open>utils/assert.h\<close>, a file
      that is not among the sources. The spec: precondition violations are "all fatal,
      checked via assertions that abort the program". A false condition ends the
      computation with \<open>AssertionFailure\<close>; a true one continues.\<close>
  "fdapde_assert c k = (if c then k else Inl AssertionFailure)"

definition shl :: "BitPackType \<Rightarrow> int \<Rightarrow> error + BitPackType" where
  \<comment> \<open>\<open>w << s\<close> on a 64-bit unsigned word; undefined unless \<open>0 \<le> s < 64\<close>\<close>
  "shl w s = (if 0 \<le> s \<and> s < PackSize then Inr (push_bit (nat s) w) else Inl UndefinedShift)"

definition shr :: "BitPackType \<Rightarrow> int \<Rightarrow> error + BitPackType" where
  \<comment> \<open>\<open>w >> s\<close> on a 64-bit unsigned word; undefined unless \<open>0 \<le> s < 64\<close>\<close>
  "shr w s = (if 0 \<le> s \<and> s < PackSize then Inr (drop_bit (nat s) w) else Inl UndefinedShift)"

definition data_read :: "BitPackType list \<Rightarrow> int \<Rightarrow> error + BitPackType" where
  \<comment> \<open>\<open>data_[p]\<close>: reading outside the vector or array is undefined\<close>
  "data_read d p = (if 0 \<le> p \<and> p < int (length d) then Inr (d ! nat p) else Inl OutOfBounds)"

definition data_write :: "BitPackType list \<Rightarrow> int \<Rightarrow> BitPackType \<Rightarrow> error + BitPackType list" where
  \<comment> \<open>\<open>data_[p] = w\<close>\<close>
  "data_write d p w = (if 0 \<le> p \<and> p < int (length d) then Inr (d[nat p := w]) else Inl OutOfBounds)"

subsection \<open>The concrete matrix \<open>BinaryMatrix<Rows, Cols>\<close>\<close>

record BinaryMatrix =
  ct_rows :: "int option"
  ct_cols :: "int option"
  n_rows :: int
  n_cols :: int
  n_bitpacks :: int
  data :: "BitPackType list"

definition is_dynamic_sized :: "BinaryMatrix \<Rightarrow> bool" where
  "is_dynamic_sized m = (ct_rows m = None \<or> ct_cols m = None)"

definition base_bitpacks :: "int \<Rightarrow> int \<Rightarrow> int" where
  \<comment> \<open>\<open>BinMtxBase(n_rows, n_cols)\<close>: \<open>n_bitpacks_(1 + std::ceil((n_rows_ * n_cols_) / PackSize))\<close>.
      The operands of \<open>/\<close> are \<open>int\<close>s, so the quotient is already an integer when
      \<open>std::ceil\<close> sees it, and \<open>std::ceil\<close> returns it unchanged. The product is the
      C++ one for \<open>r * c \<le> INT_MAX\<close> only (as in the two constructors and \<open>resize\<close>
      below).\<close>
  "base_bitpacks r c = 1 + cdiv (r * c) PackSize"

definition BinaryMatrix_static :: "int \<Rightarrow> int \<Rightarrow> BinaryMatrix" where
  \<comment> \<open>\<open>BinaryMatrix()\<close> of a static shape: \<open>Base(Rows, Cols)\<close>, storage
      \<open>std::array<BitPackType, 1 + (Rows * Cols) / PackSize>\<close> filled with 0\<close>
  "BinaryMatrix_static R C =
     \<lparr>ct_rows = Some R, ct_cols = Some C, n_rows = R, n_cols = C,
      n_bitpacks = base_bitpacks R C,
      data = replicate (nat (1 + cdiv (R * C) PackSize)) 0\<rparr>"

definition BinaryMatrix_empty :: "int option \<Rightarrow> int option \<Rightarrow> BinaryMatrix" where
  \<comment> \<open>\<open>BinaryMatrix()\<close> of a dynamic shape: \<open>Base()\<close>, all counters 0, no storage\<close>
  "BinaryMatrix_empty R C =
     \<lparr>ct_rows = R, ct_cols = C, n_rows = 0, n_cols = 0, n_bitpacks = 0, data = []\<rparr>"

definition BinaryMatrix_dynamic :: "int option \<Rightarrow> int option \<Rightarrow> int \<Rightarrow> int \<Rightarrow> BinaryMatrix" where
  \<comment> \<open>\<open>BinaryMatrix(n_rows, n_cols)\<close> of a dynamic shape\<close>
  "BinaryMatrix_dynamic R C r c =
     \<lparr>ct_rows = R, ct_cols = C, n_rows = r, n_cols = c,
      n_bitpacks = base_bitpacks r c,
      data = replicate (nat (1 + cdiv (r * c) PackSize)) 0\<rparr>"

definition resize :: "BinaryMatrix \<Rightarrow> int \<Rightarrow> int \<Rightarrow> error + BinaryMatrix" where
  "resize m rows cols =
     fdapde_assert
       ((ct_rows m = None \<or> (ct_rows m = Some 1 \<and> rows = 1)) \<and>
        (ct_cols m = None \<or> (ct_cols m = Some 1 \<and> cols = 1)))
       (Inr (m\<lparr>n_rows := rows, n_cols := cols,
               n_bitpacks := 1 + cdiv (rows * cols) PackSize,
               data := replicate (nat (1 + cdiv (rows * cols) PackSize)) 0\<rparr>))"

definition resize_vector :: "BinaryMatrix \<Rightarrow> int \<Rightarrow> BinaryMatrix" where
  \<comment> \<open>\<open>resize(int rows)\<close>, the vector-like overload\<close>
  "resize_vector m rows =
     m\<lparr>n_rows := rows, n_cols := 1,
       n_bitpacks := 1 + cdiv rows PackSize,
       data := replicate (nat (1 + cdiv rows PackSize)) 0\<rparr>"

definition pack_of :: "BinaryMatrix \<Rightarrow> int \<Rightarrow> int \<Rightarrow> int" where
  "pack_of m i j = cdiv (i * n_cols m + j) PackSize"

definition BinaryMatrix_at :: "BinaryMatrix \<Rightarrow> int \<Rightarrow> int \<Rightarrow> error + bool" where
  \<comment> \<open>\<open>BinaryMatrix::operator()(i, j)\<close>; it carries no assertion\<close>
  "BinaryMatrix_at m i j =
     ebind (data_read (data m) (pack_of m i j)) (\<lambda>w.
     ebind (shl 1 (cmod (i * n_cols m + j) PackSize)) (\<lambda>b.
     Inr ((w AND b) \<noteq> 0)))"

definition BinaryMatrix_bitpack :: "BinaryMatrix \<Rightarrow> int \<Rightarrow> error + BitPackType" where
  "BinaryMatrix_bitpack m i = data_read (data m) i"

definition BinaryMatrix_set :: "BinaryMatrix \<Rightarrow> int \<Rightarrow> int \<Rightarrow> error + BinaryMatrix" where
  \<comment> \<open>\<open>set(i, j)\<close>\<close>
  "BinaryMatrix_set m i j =
     fdapde_assert (i < n_rows m \<and> j < n_cols m)
       (ebind (data_read (data m) (pack_of m i j)) (\<lambda>w.
        ebind (shl 1 (cmod (i * n_cols m + j) PackSize)) (\<lambda>b.
        ebind (data_write (data m) (pack_of m i j) (w OR b)) (\<lambda>d.
        Inr (m\<lparr>data := d\<rparr>)))))"

definition BinaryMatrix_clear :: "BinaryMatrix \<Rightarrow> int \<Rightarrow> int \<Rightarrow> error + BinaryMatrix" where
  \<comment> \<open>\<open>clear(i, j)\<close>\<close>
  "BinaryMatrix_clear m i j =
     fdapde_assert (i < n_rows m \<and> j < n_cols m)
       (ebind (data_read (data m) (pack_of m i j)) (\<lambda>w.
        ebind (shl 1 (cmod (i * n_cols m + j) PackSize)) (\<lambda>b.
        ebind (data_write (data m) (pack_of m i j) (w AND NOT b)) (\<lambda>d.
        Inr (m\<lparr>data := d\<rparr>)))))"

definition Ones :: "int option \<Rightarrow> int option \<Rightarrow> int \<Rightarrow> int \<Rightarrow> error + BinaryMatrix" where
  \<comment> \<open>\<open>Ones(i, j)\<close>: \<open>result\<close> is default-constructed; \<open>if constexpr (Rows == Dynamic ||
      Cols == Dynamic) result.resize(i, j)\<close>, so a static shape is not resized; then
      \<open>for (k = 0; k < result.bitpacks(); ++k) result.bitpack(k) = -1\<close>. Either way the
      storage holds exactly \<open>bitpacks()\<close> words, so the loop overwrites all of it, the
      last word whole.\<close>
  "Ones R C i j =
     ebind
       (case (R, C) of
          (Some Rows, Some Cols) \<Rightarrow> Inr (BinaryMatrix_static Rows Cols)
        | _ \<Rightarrow> resize (BinaryMatrix_empty R C) i j)
       (\<lambda>m. Inr (m\<lparr>data := replicate (nat (n_bitpacks m)) (- 1)\<rparr>))"

subsection \<open>Expression nodes\<close>

text \<open>
  The nodes of the expression tree: a concrete matrix, \<open>BinMtxUnaryOp\<close> (its only
  instance is \<open>operator~\<close>, with \<open>std::bit_not\<close> and \<open>std::logical_not\<close>),
  \<open>BinMtxBinaryOp\<close> with one of the three functors of
  \<open>DEFINE_BITWISE_BINMTX_OPERATOR\<close>, and \<open>BinMtxBlock\<close> with its start row, start
  column, row count and column count. A node holds its operands by value here; the
  C++ holds a concrete matrix by reference.
\<close>

datatype bin_functor = bit_and | bit_or | bit_xor

datatype expr =
    Mtx BinaryMatrix
  | BinMtxUnaryOp expr
  | BinMtxBinaryOp bin_functor expr expr
  | BinMtxBlock expr int int int int

fun rows :: "expr \<Rightarrow> int" where
  "rows (Mtx m) = n_rows m"
| "rows (BinMtxUnaryOp op) = rows op"
| "rows (BinMtxBinaryOp f op1 op2) = rows op1"
| "rows (BinMtxBlock xpr start_row start_col block_rows block_cols) = block_rows"

fun cols :: "expr \<Rightarrow> int" where
  "cols (Mtx m) = n_cols m"
| "cols (BinMtxUnaryOp op) = cols op"
| "cols (BinMtxBinaryOp f op1 op2) = cols op1"
| "cols (BinMtxBlock xpr start_row start_col block_rows block_cols) = block_cols"

fun bitpacks :: "expr \<Rightarrow> int" where
  "bitpacks (Mtx m) = n_bitpacks m"
| "bitpacks (BinMtxUnaryOp op) = base_bitpacks (rows op) (cols op)"
| "bitpacks (BinMtxBinaryOp f op1 op2) = base_bitpacks (rows op1) (cols op1)"
| "bitpacks (BinMtxBlock xpr start_row start_col block_rows block_cols) =
     base_bitpacks block_rows block_cols"

definition size_xpr :: "expr \<Rightarrow> int" where
  \<comment> \<open>\<open>size()\<close>\<close>
  "size_xpr e = rows e * cols e"

fun logical :: "bin_functor \<Rightarrow> bool \<Rightarrow> bool \<Rightarrow> bool" where
  \<comment> \<open>the functor applied to two \<open>bool\<close>s, the result converted back to \<open>bool\<close>\<close>
  "logical bit_and a b = (a \<and> b)"
| "logical bit_or a b = (a \<or> b)"
| "logical bit_xor a b = (a \<noteq> b)"

fun bitwise :: "bin_functor \<Rightarrow> BitPackType \<Rightarrow> BitPackType \<Rightarrow> BitPackType" where
  "bitwise bit_and a b = a AND b"
| "bitwise bit_or a b = a OR b"
| "bitwise bit_xor a b = a XOR b"

fun xpr_at :: "expr \<Rightarrow> int \<Rightarrow> int \<Rightarrow> error + bool" where
  \<comment> \<open>\<open>operator()(i, j)\<close> of the node's own class\<close>
  "xpr_at (Mtx m) i j = BinaryMatrix_at m i j"
| "xpr_at (BinMtxUnaryOp op) i j = ebind (xpr_at op i j) (\<lambda>b. Inr (\<not> b))"
| "xpr_at (BinMtxBinaryOp f op1 op2) i j =
     ebind (xpr_at op1 i j) (\<lambda>a. ebind (xpr_at op2 i j) (\<lambda>b. Inr (logical f a b)))"
| "xpr_at (BinMtxBlock xpr start_row start_col block_rows block_cols) i j =
     fdapde_assert (i < block_rows \<and> j < block_cols) (xpr_at xpr (i + start_row) (j + start_col))"

definition base_at :: "expr \<Rightarrow> int \<Rightarrow> int \<Rightarrow> error + bool" where
  \<comment> \<open>\<open>BinMtxBase::operator()(i, j)\<close>: the assertion, then the derived class's operator\<close>
  "base_at e i j = fdapde_assert (i < rows e \<and> j < cols e) (xpr_at e i j)"

function BinMtxBlock_gather ::
  "(int \<Rightarrow> int \<Rightarrow> error + bool) \<Rightarrow> int \<Rightarrow> int \<Rightarrow> int \<Rightarrow> int \<Rightarrow> int \<Rightarrow> int \<Rightarrow> BitPackType
     \<Rightarrow> error + BitPackType" where
  \<comment> \<open>the loop of \<open>BinMtxBlock::bitpack\<close>, from \<open>j\<close> on, with \<open>out\<close> so far\<close>
  "BinMtxBlock_gather xpr sz nc row_offset col_offset i j out =
     (if j < PackSize \<and> i * PackSize + j < sz then
        (if nc = 0 then Inl DivisionByZero
         else
           (case xpr (row_offset + cdiv j nc) (col_offset + cmod j nc) of
              Inl e \<Rightarrow> Inl e
            | Inr b \<Rightarrow>
                (case shl (1 AND of_bool b) j of
                   Inl e \<Rightarrow> Inl e
                 | Inr w \<Rightarrow>
                     BinMtxBlock_gather xpr sz nc row_offset col_offset i (j + 1) (out OR w))))
      else Inr out)"
  by pat_completeness auto
termination
  by (relation "measure (\<lambda>(xpr, sz, nc, row_offset, col_offset, i, j, out). nat (PackSize - j))") auto

declare BinMtxBlock_gather.simps [simp del]

function bit_length :: "int \<Rightarrow> int" where
  \<comment> \<open>the number of binary digits of a positive integer\<close>
  "bit_length a = (if 0 < a then bit_length (a div 2) + 1 else 0)"
  by pat_completeness auto
termination
  by (relation "measure nat") auto

declare bit_length.simps [simp del]

definition double_round :: "int \<Rightarrow> int \<Rightarrow> int \<times> int" where
  \<comment> \<open>The \<open>double\<close> nearest to the quotient \<open>a / b\<close> of two positive integers, as
      \<open>(m, k)\<close> for the value \<open>m * 2 ^ k\<close>: \<open>e\<close> is the binary exponent of the quotient
      (\<open>2 ^ e \<le> a / b < 2 ^ (e + 1)\<close>), the 53-digit significand is \<open>a / b / 2 ^ (e - 52)\<close>
      rounded to the nearest integer, a tie to the even one. (The quotients met here are
      far inside the range of normal numbers.)\<close>
  "double_round a b =
     (let e0 = bit_length a - bit_length b;
          e = (if a * 2 ^ nat (- e0) < b * 2 ^ nat e0 then e0 - 1 else e0);
          k = e - 52;
          num = a * 2 ^ nat (- k);
          den = b * 2 ^ nat k;
          q = num div den;
          r = num mod den
      in (if 2 * r > den \<or> (2 * r = den \<and> odd q) then q + 1 else q, k))"

definition floor_scaled :: "int \<Rightarrow> int \<Rightarrow> int" where
  \<comment> \<open>\<open>std::floor(i * (PackSize / (double)n_cols_))\<close> for \<open>n_cols_ \<noteq> 0\<close>: the conversions
      of the \<open>int\<close>s to \<open>double\<close> are exact, the quotient is rounded, the product is
      rounded, the floor is exact. Rounding is symmetric in the sign, so it is done on
      the absolute values.\<close>
  "floor_scaled i nc =
     (if i = 0 then 0
      else
        (let (m, k) = double_round PackSize \<bar>nc\<bar>;
             (m2, k2) = double_round (\<bar>i\<bar> * m * 2 ^ nat k) (2 ^ nat (- k));
             s = (if (i < 0) = (nc < 0) then 1 else - 1)
         in (s * m2 * 2 ^ nat k2) div 2 ^ nat (- k2)))"

definition BinMtxBlock_bitpack ::
  "(int \<Rightarrow> int \<Rightarrow> error + bool) \<Rightarrow> int \<Rightarrow> int \<Rightarrow> int \<Rightarrow> int \<Rightarrow> int \<Rightarrow> error + BitPackType" where
  \<comment> \<open>\<open>BinMtxBlock::bitpack(i)\<close> over the element access \<open>xpr\<close> of the nested expression.
      \<open>col_offset_\<close> is written as in the source; with \<open>n_cols_ = 0\<close> and \<open>i \<noteq> 0\<close> its
      \<open>%\<close> divides by zero. \<open>row_offset_\<close> is
      \<open>start_row_ + std::floor(i * (PackSize / (double)n_cols_))\<close>, computed in \<open>double\<close>.
      With \<open>n_cols_ = 0\<close> and \<open>i = 0\<close> that is not a number; the block is empty, the loop
      does not run and never reads \<open>row_offset_\<close>, which the model leaves at
      \<open>start_row_\<close>.\<close>
  "BinMtxBlock_bitpack xpr start_row start_col block_rows block_cols i =
     (if block_cols = 0 \<and> i \<noteq> 0 then Inl DivisionByZero
      else
        (let col_offset = start_col +
               (if i = 0 then 0
                else block_cols - (block_cols - cmod (i * PackSize) block_cols));
             row_offset = start_row +
               (if block_cols = 0 then 0 else floor_scaled i block_cols)
         in BinMtxBlock_gather xpr (block_rows * block_cols) block_cols
              row_offset col_offset i 0 0))"

fun bitpack :: "expr \<Rightarrow> int \<Rightarrow> error + BitPackType" where
  \<comment> \<open>\<open>bitpack(i)\<close> of the node's own class\<close>
  "bitpack (Mtx m) i = BinaryMatrix_bitpack m i"
| "bitpack (BinMtxUnaryOp op) i = ebind (bitpack op i) (\<lambda>b. Inr (NOT b))"
| "bitpack (BinMtxBinaryOp f op1 op2) i =
     ebind (bitpack op1 i) (\<lambda>a. ebind (bitpack op2 i) (\<lambda>b. Inr (bitwise f a b)))"
| "bitpack (BinMtxBlock xpr start_row start_col block_rows block_cols) i =
     BinMtxBlock_bitpack (xpr_at xpr) start_row start_col block_rows block_cols i"

text \<open>The constructors of the nodes, with their assertions.\<close>

definition operator_not :: "expr \<Rightarrow> expr" where
  \<comment> \<open>\<open>operator~\<close>\<close>
  "operator_not op = BinMtxUnaryOp op"

definition binary_operator :: "bin_functor \<Rightarrow> expr \<Rightarrow> expr \<Rightarrow> error + expr" where
  \<comment> \<open>\<open>operator&\<close>, \<open>operator|\<close>, \<open>operator^\<close>: the constructor of \<open>BinMtxBinaryOp\<close>\<close>
  "binary_operator f op1 op2 =
     fdapde_assert (rows op1 = rows op2 \<and> cols op1 = cols op2) (Inr (BinMtxBinaryOp f op1 op2))"

definition block :: "expr \<Rightarrow> int \<Rightarrow> int \<Rightarrow> int \<Rightarrow> int \<Rightarrow> error + expr" where
  \<comment> \<open>\<open>block(start_row, start_col, block_rows, block_cols)\<close>, the dynamic-sized constructor\<close>
  "block xpr start_row start_col block_rows block_cols =
     fdapde_assert
       (start_row \<ge> 0 \<and> start_row + block_rows \<le> rows xpr \<and>
        start_col \<ge> 0 \<and> start_col + block_cols \<le> cols xpr)
       (Inr (BinMtxBlock xpr start_row start_col block_rows block_cols))"

subsection \<open>Reduction visitors\<close>

text \<open>
  A visitor is its initial \<open>res\<close>, its \<open>apply(b)\<close>, its \<open>apply(b, size)\<close> and its
  conversion to \<open>bool\<close> (the early-stop signal); the functions take the current
  \<open>res\<close> and return the new one.
\<close>

record visitor =
  res :: bool
  apply_pack :: "bool \<Rightarrow> BitPackType \<Rightarrow> bool"
  apply_sized :: "bool \<Rightarrow> BitPackType \<Rightarrow> int \<Rightarrow> error + bool"
  stop :: "bool \<Rightarrow> bool"

definition all_visitor :: visitor where
  "all_visitor =
     \<lparr>res = True,
      apply_pack = (\<lambda>r b. r \<and> (NOT b = 0)),
      apply_sized = (\<lambda>r b sz.
        ebind (shl 1 (PackSize - sz)) (\<lambda>s. Inr (r \<and> ((s - 1) AND b) = (s - 1)))),
      stop = (\<lambda>r. r = False)\<rparr>"

definition any_visitor :: visitor where
  "any_visitor =
     \<lparr>res = False,
      apply_pack = (\<lambda>r b. r \<or> (b \<noteq> 0)),
      apply_sized = (\<lambda>r b sz.
        ebind (shr (NOT 0) (PackSize - sz)) (\<lambda>s. Inr (r \<or> ((s AND b) \<noteq> 0)))),
      stop = (\<lambda>r. r = True)\<rparr>"

function linear_bitpack_visit_loop ::
  "visitor \<Rightarrow> expr \<Rightarrow> int \<Rightarrow> int \<Rightarrow> int \<Rightarrow> bool \<Rightarrow> error + bool" where
  \<comment> \<open>the \<open>for\<close> loop of \<open>linear_bitpack_visit::run\<close> from \<open>(k, i)\<close> on, and the
      statement after it\<close>
  "linear_bitpack_visit_loop v xpr sz k i r =
     (if i + PackSize - 1 < sz then
        (case bitpack xpr k of
           Inl e \<Rightarrow> Inl e
         | Inr b \<Rightarrow>
             (if stop v (apply_pack v r b) then Inr (apply_pack v r b)
              else linear_bitpack_visit_loop v xpr sz (k + 1) (i + PackSize) (apply_pack v r b)))
      else if i < sz then ebind (bitpack xpr k) (\<lambda>b. apply_sized v r b (sz - i))
      else Inr r)"
  by pat_completeness auto
termination
  by (relation "measure (\<lambda>(v, xpr, sz, k, i, r). nat (sz - i))") auto

declare linear_bitpack_visit_loop.simps [simp del]

definition linear_bitpack_visit :: "visitor \<Rightarrow> expr \<Rightarrow> error + bool" where
  \<comment> \<open>\<open>visit_apply_<Visitor, linear_bitpack_visit>()\<close>: run the visit, return \<open>visitor.res\<close>\<close>
  "linear_bitpack_visit v xpr =
     (let sz = size_xpr xpr in
      if sz = 0 then Inr (res v)
      else if sz < PackSize then
        ebind (bitpack xpr 0) (\<lambda>b. apply_sized v (res v) b (PackSize - sz))
      else linear_bitpack_visit_loop v xpr sz 0 0 (res v))"

definition all_xpr :: "expr \<Rightarrow> error + bool" where
  \<comment> \<open>\<open>all()\<close>\<close>
  "all_xpr xpr = linear_bitpack_visit all_visitor xpr"

definition any_xpr :: "expr \<Rightarrow> error + bool" where
  \<comment> \<open>\<open>any()\<close>\<close>
  "any_xpr xpr = linear_bitpack_visit any_visitor xpr"

subsection \<open>Comparison\<close>

function eq_loop :: "expr \<Rightarrow> expr \<Rightarrow> int \<Rightarrow> int \<Rightarrow> bool \<Rightarrow> error + bool" where
  \<comment> \<open>\<open>for (int i = 0; i < n && result; i++) result &= (op1.bitpack(i) == op2.bitpack(i))\<close>\<close>
  "eq_loop op1 op2 n i result =
     (if i < n \<and> result then
        (case bitpack op1 i of
           Inl e \<Rightarrow> Inl e
         | Inr a \<Rightarrow>
             (case bitpack op2 i of
                Inl e \<Rightarrow> Inl e
              | Inr b \<Rightarrow> eq_loop op1 op2 n (i + 1) (result \<and> a = b)))
      else Inr result)"
  by pat_completeness auto
termination
  by (relation "measure (\<lambda>(op1, op2, n, i, result). nat (n - i))") auto

declare eq_loop.simps [simp del]

function ne_loop :: "expr \<Rightarrow> expr \<Rightarrow> int \<Rightarrow> int \<Rightarrow> bool \<Rightarrow> error + bool" where
  \<comment> \<open>\<open>for (int i = 0; i < n && !result; i++) result |= (op1.bitpack(i) != op2.bitpack(i))\<close>\<close>
  "ne_loop op1 op2 n i result =
     (if i < n \<and> \<not> result then
        (case bitpack op1 i of
           Inl e \<Rightarrow> Inl e
         | Inr a \<Rightarrow>
             (case bitpack op2 i of
                Inl e \<Rightarrow> Inl e
              | Inr b \<Rightarrow> ne_loop op1 op2 n (i + 1) (result \<or> a \<noteq> b)))
      else Inr result)"
  by pat_completeness auto
termination
  by (relation "measure (\<lambda>(op1, op2, n, i, result). nat (n - i))") auto

declare ne_loop.simps [simp del]

definition operator_eq :: "expr \<Rightarrow> expr \<Rightarrow> error + bool" where
  \<comment> \<open>\<open>operator==\<close>\<close>
  "operator_eq op1 op2 =
     fdapde_assert (rows op1 = rows op2 \<and> cols op1 = cols op2)
       (let n = bitpacks op1 - 1 in
        ebind (eq_loop op1 op2 n 0 True) (\<lambda>result.
        ebind (shr (NOT 0) (PackSize - (size_xpr op1 - PackSize * n))) (\<lambda>mask.
        ebind (bitpack op1 n) (\<lambda>a.
        ebind (bitpack op2 n) (\<lambda>b.
        Inr (result \<and> ((mask AND a) = (mask AND b))))))))"

definition operator_ne :: "expr \<Rightarrow> expr \<Rightarrow> error + bool" where
  \<comment> \<open>\<open>operator!=\<close>\<close>
  "operator_ne op1 op2 =
     fdapde_assert (rows op1 = rows op2 \<and> cols op1 = cols op2)
       (let n = bitpacks op1 - 1 in
        ebind (ne_loop op1 op2 n 0 False) (\<lambda>result.
        ebind (shr (NOT 0) (PackSize - (size_xpr op1 - PackSize * n))) (\<lambda>mask.
        ebind (bitpack op1 n) (\<lambda>a.
        ebind (bitpack op2 n) (\<lambda>b.
        Inr (result \<or> ((mask AND a) \<noteq> (mask AND b))))))))"

subsection \<open>Writing through a block\<close>

text \<open>
  \<open>set(i, j)\<close> exists on a concrete matrix and on a block, which hands it to its nested
  expression with the block's offsets. Operator nodes have no \<open>set\<close>: the C++ does not
  compile, the model answers \<open>NoSuchMember\<close>. The written expression is returned: the
  C++ writes through the block's reference into the matrix underneath.
\<close>

fun xpr_set :: "expr \<Rightarrow> int \<Rightarrow> int \<Rightarrow> error + expr" where
  "xpr_set (Mtx m) i j = ebind (BinaryMatrix_set m i j) (\<lambda>m'. Inr (Mtx m'))"
| "xpr_set (BinMtxBlock xpr start_row start_col block_rows block_cols) i j =
     ebind (xpr_set xpr (i + start_row) (j + start_col)) (\<lambda>xpr'.
     Inr (BinMtxBlock xpr' start_row start_col block_rows block_cols))"
| "xpr_set (BinMtxUnaryOp op) i j = Inl NoSuchMember"
| "xpr_set (BinMtxBinaryOp f op1 op2) i j = Inl NoSuchMember"

fun xpr_clear :: "expr \<Rightarrow> int \<Rightarrow> int \<Rightarrow> error + expr" where
  "xpr_clear (Mtx m) i j = ebind (BinaryMatrix_clear m i j) (\<lambda>m'. Inr (Mtx m'))"
| "xpr_clear (BinMtxBlock xpr start_row start_col block_rows block_cols) i j =
     ebind (xpr_clear xpr (i + start_row) (j + start_col)) (\<lambda>xpr'.
     Inr (BinMtxBlock xpr' start_row start_col block_rows block_cols))"
| "xpr_clear (BinMtxUnaryOp op) i j = Inl NoSuchMember"
| "xpr_clear (BinMtxBinaryOp f op1 op2) i j = Inl NoSuchMember"

function block_assign_cols :: "expr \<Rightarrow> expr \<Rightarrow> int \<Rightarrow> int \<Rightarrow> error + expr" where
  \<comment> \<open>\<open>for (int j = 0; j < rhs.cols(); ++j) { if (rhs(i, j)) set(i, j); }\<close> from \<open>j\<close> on;
      \<open>rhs(i, j)\<close> is the operator of \<open>BinMtxBase\<close>\<close>
  "block_assign_cols blk rhs i j =
     (if j < cols rhs then
        (case base_at rhs i j of
           Inl e \<Rightarrow> Inl e
         | Inr b \<Rightarrow>
             (case (if b then xpr_set blk i j else Inr blk) of
                Inl e \<Rightarrow> Inl e
              | Inr blk' \<Rightarrow> block_assign_cols blk' rhs i (j + 1)))
      else Inr blk)"
  by pat_completeness auto
termination
  by (relation "measure (\<lambda>(blk, rhs, i, j). nat (cols rhs - j))") auto

declare block_assign_cols.simps [simp del]

function block_assign_rows :: "expr \<Rightarrow> expr \<Rightarrow> int \<Rightarrow> error + expr" where
  \<comment> \<open>\<open>for (int i = 0; i < rhs.rows(); ++i)\<close> from \<open>i\<close> on\<close>
  "block_assign_rows blk rhs i =
     (if i < rows rhs then
        (case block_assign_cols blk rhs i 0 of
           Inl e \<Rightarrow> Inl e
         | Inr blk' \<Rightarrow> block_assign_rows blk' rhs (i + 1))
      else Inr blk)"
  by pat_completeness auto
termination
  by (relation "measure (\<lambda>(blk, rhs, i). nat (rows rhs - i))") auto

declare block_assign_rows.simps [simp del]

definition block_assign :: "expr \<Rightarrow> expr \<Rightarrow> error + expr" where
  \<comment> \<open>\<open>BinMtxBlock::operator=(const BinMtxBase<Rows_, Cols_, Rhs_>& rhs)\<close>, the overload
      C++ selects unless \<open>rhs\<close> is a block of the very type of the target; \<open>rhs\<close> is an
      expression over storage of its own\<close>
  "block_assign blk rhs =
     fdapde_assert (rows rhs = rows blk \<and> cols rhs = cols blk) (block_assign_rows blk rhs 0)"

function block_copy_cols :: "expr \<Rightarrow> expr \<Rightarrow> int \<Rightarrow> int \<Rightarrow> error + expr" where
  \<comment> \<open>the inner loop of \<open>operator=(const BinMtxBlock& rhs)\<close> from \<open>j\<close> on; \<open>rhs(i, j)\<close> is
      the operator of \<open>BinMtxBlock\<close> itself\<close>
  "block_copy_cols blk rhs i j =
     (if j < cols rhs then
        (case xpr_at rhs i j of
           Inl e \<Rightarrow> Inl e
         | Inr b \<Rightarrow>
             (case (if b then xpr_set blk i j else Inr blk) of
                Inl e \<Rightarrow> Inl e
              | Inr blk' \<Rightarrow> block_copy_cols blk' rhs i (j + 1)))
      else Inr blk)"
  by pat_completeness auto
termination
  by (relation "measure (\<lambda>(blk, rhs, i, j). nat (cols rhs - j))") auto

declare block_copy_cols.simps [simp del]

function block_copy_rows :: "expr \<Rightarrow> expr \<Rightarrow> int \<Rightarrow> error + expr" where
  "block_copy_rows blk rhs i =
     (if i < rows rhs then
        (case block_copy_cols blk rhs i 0 of
           Inl e \<Rightarrow> Inl e
         | Inr blk' \<Rightarrow> block_copy_rows blk' rhs (i + 1))
      else Inr blk)"
  by pat_completeness auto
termination
  by (relation "measure (\<lambda>(blk, rhs, i). nat (rows rhs - i))") auto

declare block_copy_rows.simps [simp del]

definition block_assign_copy :: "expr \<Rightarrow> expr \<Rightarrow> error + expr" where
  \<comment> \<open>\<open>BinMtxBlock::operator=(const BinMtxBlock& rhs)\<close>, the overload C++ selects when
      \<open>rhs\<close> is a block of the very type of the target (same \<open>BlockRows\<close>, \<open>BlockCols\<close>
      and nested type): it has no assertion on the shapes and runs over the cells of
      \<open>rhs\<close>\<close>
  "block_assign_copy blk rhs = block_copy_rows blk rhs 0"

subsection \<open>Assignment from a dense numeric matrix\<close>

record EigenMatrix =
  eigen_rows :: int
  eigen_cols :: int
  coeff :: "int \<Rightarrow> int \<Rightarrow> int"

function eigen_assign_cols :: "BinaryMatrix \<Rightarrow> EigenMatrix \<Rightarrow> int \<Rightarrow> int \<Rightarrow> error + BinaryMatrix" where
  \<comment> \<open>\<open>for (int j = 0; j < n_cols_; ++j) { if (mtx(i, j)) set(i, j); }\<close> from \<open>j\<close> on\<close>
  "eigen_assign_cols m mtx i j =
     (if j < n_cols m then
        (case (if coeff mtx i j \<noteq> 0 then BinaryMatrix_set m i j else Inr m) of
           Inl e \<Rightarrow> Inl e
         | Inr m' \<Rightarrow> eigen_assign_cols m' mtx i (j + 1))
      else Inr m)"
  by pat_completeness auto
termination
  by (relation "measure (\<lambda>(m, mtx, i, j). nat (n_cols m - j))")
     (auto simp: BinaryMatrix_set_def fdapde_assert_def ebind_def split: if_splits sum.splits)

declare eigen_assign_cols.simps [simp del]

lemma eigen_assign_cols_n_rows:
  "eigen_assign_cols m mtx i j = Inr m' \<Longrightarrow> n_rows m' = n_rows m"
proof (induction m mtx i j arbitrary: m' rule: eigen_assign_cols.induct)
  case (1 m mtx i j)
  show ?case
  proof (cases "j < n_cols m")
    case False
    with "1.prems" show ?thesis
      by (simp add: eigen_assign_cols.simps [of m mtx i j])
  next
    case True
    with "1.prems" obtain m1 where
      s: "(if coeff mtx i j \<noteq> 0 then BinaryMatrix_set m i j else Inr m) = Inr m1"
      and r: "eigen_assign_cols m1 mtx i (j + 1) = Inr m'"
      by (simp add: eigen_assign_cols.simps [of m mtx i j] split: sum.splits)
    from s have "n_rows m1 = n_rows m"
      by (auto simp: BinaryMatrix_set_def fdapde_assert_def ebind_def split: if_splits sum.splits)
    moreover from "1.IH" [OF True s r] have "n_rows m' = n_rows m1" .
    ultimately show ?thesis by simp
  qed
qed

function eigen_assign_rows :: "BinaryMatrix \<Rightarrow> EigenMatrix \<Rightarrow> int \<Rightarrow> error + BinaryMatrix" where
  \<comment> \<open>\<open>for (int i = 0; i < n_rows_; ++i)\<close> from \<open>i\<close> on\<close>
  "eigen_assign_rows m mtx i =
     (if i < n_rows m then
        (case eigen_assign_cols m mtx i 0 of
           Inl e \<Rightarrow> Inl e
         | Inr m' \<Rightarrow> eigen_assign_rows m' mtx (i + 1))
      else Inr m)"
  by pat_completeness auto
termination
  by (relation "measure (\<lambda>(m, mtx, i). nat (n_rows m - i))")
     (auto dest!: eigen_assign_cols_n_rows)

declare eigen_assign_rows.simps [simp del]

definition eigen_assign :: "BinaryMatrix \<Rightarrow> EigenMatrix \<Rightarrow> error + BinaryMatrix" where
  \<comment> \<open>\<open>BinaryMatrix::operator=(const Eigen::MatrixBase<Derived>& mtx)\<close>. For a static
      target the \<open>static_assert\<close> lets only a source of the target's compile-time shape
      through.\<close>
  "eigen_assign m mtx =
     (let m1 = m\<lparr>n_rows := eigen_rows mtx, n_cols := eigen_cols mtx\<rparr> in
      ebind (if is_dynamic_sized m1 then resize m1 (n_rows m1) (n_cols m1) else Inr m1) (\<lambda>m2.
      eigen_assign_rows m2 mtx 0))"

subsection \<open>Well-formed storage\<close>

text \<open>
  What every constructor and \<open>resize\<close> establish and \<open>set\<close>, \<open>clear\<close> keep: the
  dimensions are not negative, the bitpack count is \<open>1 + size / PackSize\<close>, and the
  storage holds that many words. \<open>lin_bit d p\<close> is the bit of the storage \<open>d\<close> at the
  linear position \<open>p\<close>, bit \<open>p mod PackSize\<close> of word \<open>p div PackSize\<close>.
\<close>

definition well_formed :: "BinaryMatrix \<Rightarrow> bool" where
  "well_formed m =
     (0 \<le> n_rows m \<and> 0 \<le> n_cols m \<and>
      n_bitpacks m = 1 + (n_rows m * n_cols m) div PackSize \<and>
      int (length (data m)) = n_bitpacks m)"

definition lin_bit :: "BitPackType list \<Rightarrow> int \<Rightarrow> bool" where
  "lin_bit d p = bit (d ! nat (p div PackSize)) (nat (p mod PackSize))"

section \<open>Properties\<close>

subsection \<open>Arithmetic helpers\<close>

lemma cdiv_nonneg: "0 \<le> a \<Longrightarrow> 0 < b \<Longrightarrow> cdiv a b = a div b"
  by (auto simp: cdiv_def sgn_if)

lemma cmod_nonneg: "0 \<le> a \<Longrightarrow> 0 < b \<Longrightarrow> cmod a b = a mod b"
  by (simp add: cmod_def cdiv_nonneg minus_mult_div_eq_mod)

lemma floor_div64: "\<lfloor>real_of_int n / 64\<rfloor> = n div 64"
  using floor_divide_of_int_eq [of n 64, where ?'a = real] by simp

lemma ceiling_div64: "\<lceil>real_of_int n / 64\<rceil> = n div 64 + (if 64 dvd n then 0 else 1)"
proof -
  have "\<lceil>real_of_int n / real_of_int 64\<rceil> = - ((- n) div 64)"
    by (rule ceiling_divide_eq_div)
  also have "\<dots> = n div 64 + (if 64 dvd n then 0 else 1)"
    by (simp add: zdiv_zminus1_eq_if dvd_eq_mod_eq_0)
  finally show ?thesis by simp
qed

text \<open>
  The row offset in \<open>double\<close>: \<open>64 / 3.0\<close> is 21.33 and its floor is the exact one, while
  \<open>49 * (64 / 49.0)\<close> is 63.99999999999999 and its floor is 63, one less than the
  exact quotient.
\<close>

lemma floor_scaled_examples: "floor_scaled 1 3 = 21" "floor_scaled 49 49 = 63"
  by code_simp+

subsection \<open>Well-formed storage is what the code builds\<close>

lemma well_formed_constructed:
  assumes "0 \<le> r" "0 \<le> c"
  shows "well_formed (BinaryMatrix_dynamic R C r c)"
    and "well_formed (BinaryMatrix_static r c)"
    and "resize m r c = Inr m' \<Longrightarrow> well_formed m'"
proof -
  from assms have nn: "0 \<le> r * c" by simp
  then have d: "0 \<le> (r * c) div PackSize" by (simp add: pos_imp_zdiv_nonneg_iff)
  from nn d assms show "well_formed (BinaryMatrix_dynamic R C r c)"
    by (simp add: well_formed_def BinaryMatrix_dynamic_def base_bitpacks_def cdiv_nonneg)
  from nn d assms show "well_formed (BinaryMatrix_static r c)"
    by (simp add: well_formed_def BinaryMatrix_static_def base_bitpacks_def cdiv_nonneg)
  assume "resize m r c = Inr m'"
  with nn d assms show "well_formed m'"
    by (auto simp: well_formed_def resize_def fdapde_assert_def cdiv_nonneg split: if_splits)
qed

lemma well_formed_set_clear:
  assumes "well_formed m"
  shows "BinaryMatrix_set m i j = Inr m' \<Longrightarrow> well_formed m'"
    and "BinaryMatrix_clear m i j = Inr m' \<Longrightarrow> well_formed m'"
  using assms
  by (auto simp: well_formed_def BinaryMatrix_set_def BinaryMatrix_clear_def fdapde_assert_def
      ebind_def data_write_def split: if_splits sum.splits)

subsection \<open>Block views: bitpack against element access\<close>

text \<open>
  C1. The claim: for every block and every bitpack index \<open>k\<close>, bit \<open>b\<close> of
  \<open>bitpack(k)\<close> with \<open>k * PackSize + b < block_rows * block_cols\<close> equals the block's
  element \<open>((k * PackSize + b) div block_cols, (k * PackSize + b) mod block_cols)\<close>.

  The code does not do this. \<open>BinMtxBlock::bitpack\<close> reads bit \<open>j\<close> at column
  \<open>col_offset_ + j % n_cols_\<close> of row \<open>row_offset_ + j / n_cols_\<close>, without carrying into
  the next row when \<open>(i * PackSize) % n_cols_ + j % n_cols_\<close> reaches \<open>n_cols_\<close>. On the
  block of the first 3 columns of a 30 x 4 matrix whose only true cell is \<open>(21, 3)\<close>, a
  cell outside the block, bit 2 of \<open>bitpack(1)\<close> is linear position 66 of the block,
  cell \<open>(22, 0)\<close>: the element is false, the bit is 1.
\<close>

theorem block_bitpack_differs_from_element:
  "ebind (BinaryMatrix_set (BinaryMatrix_dynamic None None 30 4) 21 3) (\<lambda>m.
   ebind (block (Mtx m) 0 0 30 3) (\<lambda>B.
   ebind (bitpack B 1) (\<lambda>w.
   ebind (base_at B ((1 * 64 + 2) div 3) ((1 * 64 + 2) mod 3)) (\<lambda>b.
   Inr (1 * 64 + 2 < rows B * cols B, bit w 2, b))))) = Inr (True, True, False)"
  by code_simp

subsection \<open>Reductions\<close>

text \<open>
  C2. The claim: \<open>all()\<close> is true exactly when every logical element is true, whatever
  the padding bits hold; on an all-ones matrix whose size is not a multiple of the word
  width, clearing any single bit makes it false.

  The code does not do this. \<open>linear_bitpack_visit::run\<close> hands \<open>apply(b, size)\<close> the
  number of padding bits when the expression is shorter than a word
  (\<open>PackSize - size\<close>), and the number of valid bits for the last bitpack of a longer
  one (\<open>size - i\<close>). \<open>all_visitor\<close> builds its mask as \<open>(1 << (PackSize - size)) - 1\<close>,
  right for the first call only. On \<open>Ones(100, 1)\<close> the last bitpack has 36 valid bits and
  the mask covers the low 28: with element 99 cleared (bit 35 of bitpack 1), \<open>all()\<close>
  still answers true.
\<close>

theorem all_ignores_cleared_bit_of_last_bitpack:
  "ebind (Ones None None 100 1) (\<lambda>ones.
   ebind (all_xpr (Mtx ones)) (\<lambda>before.
   ebind (BinaryMatrix_clear ones 99 0) (\<lambda>m.
   ebind (BinaryMatrix_at m 99 0) (\<lambda>b.
   ebind (all_xpr (Mtx m)) (\<lambda>after.
   Inr (before, b, after)))))) = Inr (True, False, True)"
  by code_simp

text \<open>
  C3. The claim: \<open>any()\<close> is true exactly when some logical element is true, whatever
  the padding bits hold; on an all-zero vector, setting any single bit makes it true.

  The code does not do this. \<open>any_visitor\<close> builds its mask as
  \<open>~0 >> (PackSize - size)\<close>, right for the last bitpack of a long expression, where
  \<open>size\<close> is the number of valid bits, and wrong for an expression shorter than a word,
  where \<open>run\<close> passes the number of padding bits. On a zero vector of 40 elements the
  mask covers the low 24 bits: with element 30 set, \<open>any()\<close> still answers false.
\<close>

theorem any_misses_set_bit_of_short_vector:
  "ebind (any_xpr (Mtx (BinaryMatrix_dynamic None (Some 1) 40 1))) (\<lambda>before.
   ebind (BinaryMatrix_set (BinaryMatrix_dynamic None (Some 1) 40 1) 30 0) (\<lambda>m.
   ebind (BinaryMatrix_at m 30 0) (\<lambda>b.
   ebind (any_xpr (Mtx m)) (\<lambda>after.
   Inr (before, b, after))))) = Inr (False, True, False)"
  by code_simp

subsection \<open>Assignment into a block\<close>

text \<open>
  C4. The claim: after \<open>B = rhs\<close> every cell of the block equals the cell of \<open>rhs\<close>,
  also where \<open>rhs\<close> is false and the block was true.

  The code does not do this. \<open>BinMtxBlock::operator=\<close> runs \<open>if (rhs(i, j)) set(i, j)\<close>
  and never clears. With \<open>B\<close> the first row of \<open>Ones(2, 2)\<close> and \<open>rhs\<close> a zero 1 x 2
  matrix, \<open>B(0, 0)\<close> is true before the assignment, \<open>rhs(0, 0)\<close> is false, and
  \<open>B(0, 0)\<close> is still true after it.
\<close>

theorem block_assign_keeps_true_cell:
  "ebind (Ones None None 2 2) (\<lambda>m.
   ebind (block (Mtx m) 0 0 1 2) (\<lambda>B.
   ebind (base_at B 0 0) (\<lambda>before.
   ebind (base_at (Mtx (BinaryMatrix_dynamic None None 1 2)) 0 0) (\<lambda>r.
   ebind (block_assign B (Mtx (BinaryMatrix_dynamic None None 1 2))) (\<lambda>B'.
   ebind (base_at B' 0 0) (\<lambda>after.
   Inr (before, r, after))))))) = Inr (True, False, True)"
  by code_simp

subsection \<open>Comparison\<close>

text \<open>
  C5. The claim: for two concrete matrices of equal dimensions \<open>operator==\<close> is true
  exactly when they agree on every logical element, and \<open>operator!=\<close> is its negation.

  The code has no defined result when the size is a multiple of \<open>PackSize\<close>. Then
  \<open>op1.size() - PackSize * n\<close> is 0 and the mask is \<open>~(BitPackType)0 >> PackSize\<close>, a
  shift by the full width of the word. Take \<open>a = Ones(8, 8)\<close> and \<open>b\<close> assigned from an
  8 x 8 dense matrix of ones: the first word of both is all ones, so all 64 logical
  elements are true in both, the guard words are \<open>-1\<close> and \<open>0\<close>, and neither operator
  returns a value. (Hardware that takes the shift count modulo 64 makes the mask all
  ones and compares the guard words: \<open>a == b\<close> is then false. For the other sizes the
  operators are right, and operands of different dimensions fail the assertion:
  \<open>operator_eq_concrete\<close> and \<open>operator_eq_ne_mismatch\<close> below.)
\<close>

theorem operator_eq_undefined_on_full_last_bitpack:
  "ebind (Ones None None 8 8) (\<lambda>a.
   ebind (eigen_assign (BinaryMatrix_empty None None)
            \<lparr>eigen_rows = 8, eigen_cols = 8, coeff = (\<lambda>i j. 1)\<rparr>) (\<lambda>b.
   Inr (data a, data b, operator_eq (Mtx a) (Mtx b), operator_ne (Mtx a) (Mtx b)))) =
   Inr ([- 1, - 1], [- 1, 0], Inl UndefinedShift, Inl UndefinedShift)"
  by code_simp

subsection \<open>The number of bitpacks\<close>

text \<open>
  C7. The claim: a matrix constructed with or resized to \<open>r\<close> rows and \<open>c\<close> columns has
  \<open>ceil(r * c / PackSize) + 1\<close> bitpacks, one guard word more than the \<open>r * c\<close> bits
  need.

  The code computes \<open>1 + (r * c) / PackSize\<close> with the integer quotient, as the static
  storage type \<open>std::array<BitPackType, 1 + (Rows * Cols) / PackSize>\<close> does. A 5 x 3
  matrix has 1 bitpack, and the claim says 2.
\<close>

theorem bitpacks_ceil_plus_one_counterexample:
  "n_bitpacks (BinaryMatrix_dynamic None None 5 3) \<noteq> \<lceil>real_of_int (5 * 3) / 64\<rceil> + 1"
  by (simp add: BinaryMatrix_dynamic_def base_bitpacks_def cdiv_def)

text \<open>
  C7, amended. A matrix constructed with explicit dimensions \<open>r \<ge> 0\<close>, \<open>c \<ge> 0\<close> whose
  product \<open>r * c\<close> is at most \<open>INT_MAX\<close> (the constructor \<open>BinaryMatrix(n_rows, n_cols)\<close>,
  the default constructor of a static shape) or resized to them (\<open>resize(rows, cols)\<close>,
  and \<open>resize(rows)\<close> with \<open>c = 1\<close>) has \<open>floor(r * c / PackSize) + 1\<close> bitpacks. That
  is \<open>ceil(r * c / PackSize) + 1\<close>, one word more than needed, exactly when \<open>r * c\<close> is
  a multiple of \<open>PackSize\<close>, and \<open>ceil(r * c / PackSize)\<close>, no extra word, otherwise. (A
  default-constructed matrix of a dynamic shape has no bitpack at all. For a product
  beyond \<open>INT_MAX\<close> the \<open>int\<close> multiplication of the source overflows and nothing is
  said.)
\<close>

theorem bitpacks_floor_plus_one:
  assumes "0 \<le> r" and "r \<le> INT_MAX" and "0 \<le> c" and "c \<le> INT_MAX"
    and "r * c \<le> INT_MAX"
  shows "n_bitpacks (BinaryMatrix_dynamic R C r c) = \<lfloor>real_of_int (r * c) / 64\<rfloor> + 1 \<and>
         n_bitpacks (BinaryMatrix_static r c) = \<lfloor>real_of_int (r * c) / 64\<rfloor> + 1 \<and>
         (\<forall>m'. resize m r c = Inr m' \<longrightarrow> n_bitpacks m' = \<lfloor>real_of_int (r * c) / 64\<rfloor> + 1) \<and>
         n_bitpacks (resize_vector m r) = \<lfloor>real_of_int (r * 1) / 64\<rfloor> + 1 \<and>
         \<lfloor>real_of_int (r * c) / 64\<rfloor> + 1 =
           \<lceil>real_of_int (r * c) / 64\<rceil> + (if 64 dvd r * c then 1 else 0) \<and>
         n_bitpacks (BinaryMatrix_empty R C) = 0"
proof -
  from assms(1,3) have nn: "0 \<le> r * c" by simp
  have f: "\<lfloor>real_of_int (r * c) / 64\<rfloor> = cdiv (r * c) 64"
    using nn by (simp only: floor_div64 cdiv_nonneg)
  have f1: "\<lfloor>real_of_int (r * 1) / 64\<rfloor> = cdiv r 64"
    using assms(1) by (simp only: floor_div64 mult_1_right cdiv_nonneg)
  have 1: "n_bitpacks (BinaryMatrix_dynamic R C r c) = \<lfloor>real_of_int (r * c) / 64\<rfloor> + 1"
    by (simp only: f) (simp add: BinaryMatrix_dynamic_def base_bitpacks_def)
  have 2: "n_bitpacks (BinaryMatrix_static r c) = \<lfloor>real_of_int (r * c) / 64\<rfloor> + 1"
    by (simp only: f) (simp add: BinaryMatrix_static_def base_bitpacks_def)
  have 3: "\<forall>m'. resize m r c = Inr m' \<longrightarrow> n_bitpacks m' = \<lfloor>real_of_int (r * c) / 64\<rfloor> + 1"
    by (simp only: f) (auto simp: resize_def fdapde_assert_def split: if_splits)
  have 4: "n_bitpacks (resize_vector m r) = \<lfloor>real_of_int (r * 1) / 64\<rfloor> + 1"
    by (simp only: f1) (simp add: resize_vector_def)
  have 5: "\<lfloor>real_of_int (r * c) / 64\<rfloor> + 1 =
           \<lceil>real_of_int (r * c) / 64\<rceil> + (if 64 dvd r * c then 1 else 0)"
    by (simp only: floor_div64 ceiling_div64) simp
  have 6: "n_bitpacks (BinaryMatrix_empty R C) = 0"
    by (simp add: BinaryMatrix_empty_def)
  show ?thesis by (rule conjI [OF 1 conjI [OF 2 conjI [OF 3 conjI [OF 4 conjI [OF 5 6]]]]])
qed

text \<open>
  A 5 x 3 matrix has 1 bitpack, the 15 bits need 1 word: no guard word.
\<close>

theorem bitpacks_floor_plus_one_witness:
  "(0::int) \<le> 5 \<and> (5::int) \<le> INT_MAX \<and> (0::int) \<le> 3 \<and> (3::int) \<le> INT_MAX \<and>
   (5::int) * 3 \<le> INT_MAX \<and>
   n_bitpacks (BinaryMatrix_dynamic None None 5 3) = 1 \<and>
   n_bitpacks (BinaryMatrix_static 5 3) = 1 \<and>
   (\<exists>m'. resize (BinaryMatrix_empty None None) 5 3 = Inr m' \<and> n_bitpacks m' = 1) \<and>
   \<lceil>real_of_int (5 * 3) / 64\<rceil> = 1"
proof -
  have h: "(0::int) \<le> 5" "(5::int) \<le> INT_MAX" "(0::int) \<le> 3" "(3::int) \<le> INT_MAX"
    "(5::int) * 3 \<le> INT_MAX"
    by simp_all
  note T = bitpacks_floor_plus_one [OF h, of None None "BinaryMatrix_empty None None"]
  have fl: "\<lfloor>real_of_int (5 * 3) / 64\<rfloor> = 0" by simp
  have cl: "\<lceil>real_of_int (5 * 3) / 64\<rceil> = 1" by simp
  have a: "n_bitpacks (BinaryMatrix_dynamic None None 5 3) = 1"
    using T [THEN conjunct1] by (simp only: fl)
  have b: "n_bitpacks (BinaryMatrix_static 5 3) = 1"
    using T [THEN conjunct2, THEN conjunct1] by (simp only: fl)
  define m' where "m' = (BinaryMatrix_empty None None)\<lparr>n_rows := 5, n_cols := 3,
                n_bitpacks := 1 + cdiv (5 * 3) 64,
                data := replicate (nat (1 + cdiv (5 * 3) 64)) 0\<rparr>"
  have r: "resize (BinaryMatrix_empty None None) 5 3 = Inr m'"
    by (simp add: resize_def fdapde_assert_def BinaryMatrix_empty_def m'_def)
  have "n_bitpacks m' = \<lfloor>real_of_int (5 * 3) / 64\<rfloor> + 1"
    using T [THEN conjunct2, THEN conjunct2, THEN conjunct1, rule_format, OF r] .
  then have "n_bitpacks m' = 1"
    by (simp only: fl)
  with r have c: "\<exists>m'. resize (BinaryMatrix_empty None None) 5 3 = Inr m' \<and> n_bitpacks m' = 1"
    by (intro exI conjI)
  show ?thesis
    by (rule conjI [OF h(1) conjI [OF h(2) conjI [OF h(3) conjI [OF h(4) conjI [OF h(5)
          conjI [OF a conjI [OF b conjI [OF c cl]]]]]]]])
qed

subsection \<open>Bounds of element access\<close>

text \<open>
  C8. The claim: on a concrete matrix, \<open>m(i, j)\<close> fails with an assertion whenever
  \<open>i >= rows()\<close> or \<open>j >= cols()\<close>, and never silently returns a value.

  The code does not do this. \<open>BinaryMatrix::operator()\<close> has no assertion (\<open>set\<close>,
  \<open>clear\<close> and the operator of \<open>BinMtxBase\<close> have one), and it hides the operator of
  the base class. On a 5 x 3 matrix with cell \<open>(1, 0)\<close> set, \<open>m(0, 3)\<close> has \<open>j = cols()\<close>
  and returns true: it reads linear position 3, which is cell \<open>(1, 0)\<close>.
\<close>

theorem element_access_out_of_range_returns:
  "ebind (BinaryMatrix_set (BinaryMatrix_static 5 3) 1 0) (\<lambda>m.
   ebind (BinaryMatrix_at m 0 3) (\<lambda>b.
   Inr (3 \<ge> n_cols m, b))) = Inr (True, True)"
  by code_simp

lemma ebind_not_assert:
  "r \<noteq> Inl AssertionFailure \<Longrightarrow> (\<And>x. f x \<noteq> Inl AssertionFailure) \<Longrightarrow> ebind r f \<noteq> Inl AssertionFailure"
  by (cases r) (simp_all add: ebind_def)

lemma data_read_not_assert: "data_read d p \<noteq> Inl AssertionFailure"
  by (simp add: data_read_def)

lemma data_write_not_assert: "data_write d p w \<noteq> Inl AssertionFailure"
  by (simp add: data_write_def)

lemma shl_not_assert: "shl w s \<noteq> Inl AssertionFailure"
  by (simp add: shl_def)

lemma BinaryMatrix_at_not_assert: "BinaryMatrix_at m i j \<noteq> Inl AssertionFailure"
  unfolding BinaryMatrix_at_def
  by (intro ebind_not_assert data_read_not_assert shl_not_assert) simp

text \<open>
  C9. The assertions of \<open>set(i, j)\<close>, \<open>clear(i, j)\<close> and of the element access of
  \<open>BinMtxBase\<close> are \<open>i < n_rows_ && j < n_cols_\<close>, upper bounds only. A negative index
  passes its bound: when the other index is below its own bound, none of the three
  operations ends in an assertion failure, and the access of the base class goes on to
  the derived operator. (What follows the assertion is a read or a write at the linear
  position \<open>i * n_cols_ + j\<close>, another cell of the matrix or undefined behaviour.)
\<close>

theorem negative_index_passes_bounds_assertions:
  assumes "0 \<le> n_rows m" and "0 \<le> n_cols m"
    and "(i < 0 \<and> j < n_cols m) \<or> (j < 0 \<and> i < n_rows m)"
  shows "BinaryMatrix_set m i j \<noteq> Inl AssertionFailure \<and>
         BinaryMatrix_clear m i j \<noteq> Inl AssertionFailure \<and>
         (\<forall>e. rows e = n_rows m \<and> cols e = n_cols m \<longrightarrow> base_at e i j = xpr_at e i j) \<and>
         base_at (Mtx m) i j \<noteq> Inl AssertionFailure"
proof -
  from assms have g: "i < n_rows m \<and> j < n_cols m" by auto
  have s: "BinaryMatrix_set m i j \<noteq> Inl AssertionFailure"
    unfolding BinaryMatrix_set_def fdapde_assert_def
    by (simp only: g simp_thms if_True)
       (intro ebind_not_assert data_read_not_assert shl_not_assert data_write_not_assert, simp)
  have c: "BinaryMatrix_clear m i j \<noteq> Inl AssertionFailure"
    unfolding BinaryMatrix_clear_def fdapde_assert_def
    by (simp only: g simp_thms if_True)
       (intro ebind_not_assert data_read_not_assert shl_not_assert data_write_not_assert, simp)
  have b: "\<forall>e. rows e = n_rows m \<and> cols e = n_cols m \<longrightarrow> base_at e i j = xpr_at e i j"
    using g by (simp add: base_at_def fdapde_assert_def)
  have "base_at (Mtx m) i j = BinaryMatrix_at m i j"
    using g by (simp add: base_at_def fdapde_assert_def)
  then have a: "base_at (Mtx m) i j \<noteq> Inl AssertionFailure"
    by (simp only: BinaryMatrix_at_not_assert not_False_eq_True)
  show ?thesis by (rule conjI [OF s conjI [OF c conjI [OF b a]]])
qed

text \<open>
  On a 5 x 3 matrix, \<open>set(1, -1)\<close> passes the assertion and sets cell \<open>(0, 2)\<close>.
\<close>

theorem negative_index_passes_bounds_assertions_witness:
  "(0::int) \<le> n_rows (BinaryMatrix_static 5 3) \<and> 0 \<le> n_cols (BinaryMatrix_static 5 3) \<and>
   (1::int) < n_rows (BinaryMatrix_static 5 3) \<and> (- 1::int) < 0 \<and>
   BinaryMatrix_set (BinaryMatrix_static 5 3) 1 (- 1) = BinaryMatrix_set (BinaryMatrix_static 5 3) 0 2 \<and>
   BinaryMatrix_set (BinaryMatrix_static 5 3) 1 (- 1) \<noteq> Inl AssertionFailure \<and>
   BinaryMatrix_clear (BinaryMatrix_static 5 3) 1 (- 1) \<noteq> Inl AssertionFailure \<and>
   base_at (Mtx (BinaryMatrix_static 5 3)) 1 (- 1) \<noteq> Inl AssertionFailure"
proof -
  have d: "n_rows (BinaryMatrix_static 5 3) = 5" "n_cols (BinaryMatrix_static 5 3) = 3"
    by (simp_all add: BinaryMatrix_static_def)
  have h1: "0 \<le> n_rows (BinaryMatrix_static 5 3)" and h2: "0 \<le> n_cols (BinaryMatrix_static 5 3)"
    and h3: "(1 < (0::int) \<and> - 1 < n_cols (BinaryMatrix_static 5 3)) \<or>
             (- 1 < (0::int) \<and> 1 < n_rows (BinaryMatrix_static 5 3))"
    by (simp_all add: d)
  note T = negative_index_passes_bounds_assertions [OF h1 h2 h3]
  have e: "BinaryMatrix_set (BinaryMatrix_static 5 3) 1 (- 1) = BinaryMatrix_set (BinaryMatrix_static 5 3) 0 2"
    by code_simp
  have l: "(1::int) < n_rows (BinaryMatrix_static 5 3)" "(- 1::int) < 0" by (simp_all add: d)
  show ?thesis
    by (rule conjI [OF h1 conjI [OF h2 conjI [OF l(1) conjI [OF l(2) conjI [OF e
          conjI [OF T [THEN conjunct1] conjI [OF T [THEN conjunct2, THEN conjunct1]
            T [THEN conjunct2, THEN conjunct2, THEN conjunct2]]]]]]]])
qed

subsection \<open>Linear positions\<close>

lemma lin_index_bounds:
  fixes i j nr nc :: int
  assumes "0 \<le> i" "i < nr" "0 \<le> j" "j < nc"
  shows "0 \<le> i * nc + j" and "i * nc + j < nr * nc"
proof -
  from assms have nc: "0 \<le> nc" by simp
  with assms have "0 \<le> i * nc" by simp
  with assms show "0 \<le> i * nc + j" by simp
  from assms nc have "(i + 1) * nc \<le> nr * nc"
    by (intro mult_right_mono) simp_all
  with assms show "i * nc + j < nr * nc" by (simp add: algebra_simps)
qed

lemma lin_index_inj:
  fixes i j i' j' nc :: int
  assumes "0 \<le> j" "j < nc" "0 \<le> j'" "j' < nc" "i * nc + j = i' * nc + j'"
  shows "i = i' \<and> j = j'"
proof -
  from assms(1,2) have "i = (i * nc + j) div nc" by simp
  also have "\<dots> = (i' * nc + j') div nc" by (simp only: assms(5))
  also from assms(3,4) have "\<dots> = i'" by simp
  finally have "i = i'" .
  with assms(5) show ?thesis by simp
qed

lemma in_storage:
  assumes "0 \<le> p" "p < sz" "sz \<le> PackSize * int (length d)"
  shows "0 \<le> p div PackSize" "p div PackSize < int (length d)" "nat (p div PackSize) < length d"
  using assms by auto

lemma shl_one: "0 \<le> p \<Longrightarrow> shl 1 (cmod p PackSize) = Inr (push_bit (nat (p mod PackSize)) 1)"
  by (simp add: shl_def cmod_nonneg)

lemma BinaryMatrix_at_lin:
  assumes "0 \<le> i * n_cols m + j" "(i * n_cols m + j) div PackSize < int (length (data m))"
  shows "BinaryMatrix_at m i j = Inr (lin_bit (data m) (i * n_cols m + j))"
  using assms
  by (simp add: BinaryMatrix_at_def pack_of_def cdiv_nonneg shl_one data_read_def ebind_def
      lin_bit_def bit_iff_and_push_bit_not_eq_0 pos_imp_zdiv_nonneg_iff)

lemma BinaryMatrix_set_lin:
  assumes "i < n_rows m" "j < n_cols m"
    "0 \<le> i * n_cols m + j" "(i * n_cols m + j) div PackSize < int (length (data m))"
  shows "BinaryMatrix_set m i j =
     Inr (m\<lparr>data := (data m)[nat ((i * n_cols m + j) div PackSize) :=
            data m ! nat ((i * n_cols m + j) div PackSize) OR
              push_bit (nat ((i * n_cols m + j) mod PackSize)) 1]\<rparr>)"
  using assms
  by (simp add: BinaryMatrix_set_def fdapde_assert_def pack_of_def cdiv_nonneg shl_one data_read_def
      data_write_def ebind_def pos_imp_zdiv_nonneg_iff)

lemma bit_or_push_bit_one:
  fixes w :: BitPackType
  assumes "n < 64"
  shows "bit (w OR push_bit n 1) k = (bit w k \<or> k = n)"
    and "bit (w OR 2 ^ n) k = (bit w k \<or> k = n)"
  using assms by (auto simp: bit_simps)

lemma lin_bit_set:
  assumes "0 \<le> p" "p div PackSize < int (length d)" "0 \<le> q" "q div PackSize < int (length d)"
  shows "lin_bit (d[nat (p div PackSize) := d ! nat (p div PackSize) OR push_bit (nat (p mod PackSize)) 1]) q
         = (lin_bit d q \<or> q = p)"
proof (cases "q div PackSize = p div PackSize")
  case True
  have n: "nat (p mod PackSize) < 64" by simp
  have "q mod PackSize = p mod PackSize \<longleftrightarrow> q = p"
    using True by (metis mult_div_mod_eq)
  moreover have "nat (q mod PackSize) = nat (p mod PackSize) \<longleftrightarrow> q mod PackSize = p mod PackSize"
    by (simp add: eq_nat_nat_iff)
  ultimately show ?thesis
    using True assms by (simp add: lin_bit_def bit_or_push_bit_one [OF n])
next
  case False
  then have "q \<noteq> p" by auto
  moreover from False assms have "nat (q div PackSize) \<noteq> nat (p div PackSize)"
    by (simp add: pos_imp_zdiv_nonneg_iff)
  ultimately show ?thesis
    by (simp add: lin_bit_def)
qed

subsection \<open>Assignment from a dense numeric matrix\<close>

lemma eigen_assign_cols_lin:
  assumes "0 \<le> i" "i < n_rows m" "0 \<le> j"
    and "n_rows m * n_cols m \<le> PackSize * int (length (data m))"
  shows "\<exists>d'. eigen_assign_cols m mtx i j = Inr (m\<lparr>data := d'\<rparr>) \<and> length d' = length (data m) \<and>
          (\<forall>q. 0 \<le> q \<and> q < PackSize * int (length (data m)) \<longrightarrow>
             lin_bit d' q = (lin_bit (data m) q \<or>
               (\<exists>j'. j \<le> j' \<and> j' < n_cols m \<and> q = i * n_cols m + j' \<and> coeff mtx i j' \<noteq> 0)))"
  using assms
proof (induction "nat (n_cols m - j)" arbitrary: m j)
  case 0
  then have nj: "\<not> j < n_cols m" by simp
  then have "eigen_assign_cols m mtx i j = Inr (m\<lparr>data := data m\<rparr>)"
    by (simp add: eigen_assign_cols.simps [of m mtx i j])
  moreover from nj have "lin_bit (data m) q = (lin_bit (data m) q \<or>
       (\<exists>j'. j \<le> j' \<and> j' < n_cols m \<and> q = i * n_cols m + j' \<and> coeff mtx i j' \<noteq> 0))" for q
    by auto
  ultimately show ?case by (intro exI [of _ "data m"]) simp
next
  case (Suc k)
  then have jl: "j < n_cols m" by simp
  let ?p = "i * n_cols m + j"
  from lin_index_bounds [OF Suc.prems(1,2,3) jl] Suc.prems(4)
  have p: "0 \<le> ?p" "?p < PackSize * int (length (data m))" by simp_all
  then have pd: "?p div PackSize < int (length (data m))" by simp
  define m1 where "m1 = (if coeff mtx i j \<noteq> 0
     then m\<lparr>data := (data m)[nat (?p div PackSize) :=
            data m ! nat (?p div PackSize) OR push_bit (nat (?p mod PackSize)) 1]\<rparr> else m)"
  have s: "(if coeff mtx i j \<noteq> 0 then BinaryMatrix_set m i j else Inr m) = Inr m1"
    using BinaryMatrix_set_lin [OF Suc.prems(2) jl p(1) pd] by (simp add: m1_def)
  have m1: "n_rows m1 = n_rows m" "n_cols m1 = n_cols m" "length (data m1) = length (data m)"
    by (simp_all add: m1_def)
  have b1: "lin_bit (data m1) q = (lin_bit (data m) q \<or> (q = ?p \<and> coeff mtx i j \<noteq> 0))"
    if "0 \<le> q" "q < PackSize * int (length (data m))" for q
  proof -
    from that have "q div PackSize < int (length (data m))" by simp
    from lin_bit_set [OF p(1) pd that(1) this] show ?thesis
      by (simp add: m1_def)
  qed
  have step: "eigen_assign_cols m mtx i j = eigen_assign_cols m1 mtx i (j + 1)"
    using jl s by (simp add: eigen_assign_cols.simps [of m mtx i j])
  have k: "k = nat (n_cols m1 - (j + 1))" using Suc.hyps(2) m1 by simp
  from Suc.prems have pre: "0 \<le> i" "i < n_rows m1" "0 \<le> j + 1"
    "n_rows m1 * n_cols m1 \<le> PackSize * int (length (data m1))"
    by (simp_all add: m1)
  from Suc.hyps(1) [OF k pre] obtain d' where
    r: "eigen_assign_cols m1 mtx i (j + 1) = Inr (m1\<lparr>data := d'\<rparr>)"
    and l: "length d' = length (data m1)"
    and b: "\<And>q. 0 \<le> q \<Longrightarrow> q < PackSize * int (length (data m1)) \<Longrightarrow>
             lin_bit d' q = (lin_bit (data m1) q \<or>
               (\<exists>j'. j + 1 \<le> j' \<and> j' < n_cols m1 \<and> q = i * n_cols m1 + j' \<and> coeff mtx i j' \<noteq> 0))"
    by blast
  have e: "m1\<lparr>data := d'\<rparr> = m\<lparr>data := d'\<rparr>" by (simp add: m1_def)
  have "lin_bit d' q = (lin_bit (data m) q \<or>
               (\<exists>j'. j \<le> j' \<and> j' < n_cols m \<and> q = i * n_cols m + j' \<and> coeff mtx i j' \<noteq> 0))"
    if q: "0 \<le> q" "q < PackSize * int (length (data m))" for q
  proof -
    have "(\<exists>j'. j \<le> j' \<and> j' < n_cols m \<and> q = i * n_cols m + j' \<and> coeff mtx i j' \<noteq> 0) \<longleftrightarrow>
          ((q = ?p \<and> coeff mtx i j \<noteq> 0) \<or>
           (\<exists>j'. j + 1 \<le> j' \<and> j' < n_cols m \<and> q = i * n_cols m + j' \<and> coeff mtx i j' \<noteq> 0))"
      (is "?L \<longleftrightarrow> ?A \<or> ?R")
    proof
      assume ?L
      then obtain j' where j': "j \<le> j'" "j' < n_cols m" "q = i * n_cols m + j'" "coeff mtx i j' \<noteq> 0"
        by blast
      show "?A \<or> ?R"
      proof (cases "j' = j")
        case True with j' show ?thesis by simp
      next
        case False
        with j' have "j + 1 \<le> j'" by simp
        with j' show ?thesis by blast
      qed
    next
      assume "?A \<or> ?R"
      then show ?L
      proof
        assume ?A with jl show ?L by (intro exI [of _ j]) simp
      next
        assume ?R
        then obtain j' where "j + 1 \<le> j'" "j' < n_cols m" "q = i * n_cols m + j'" "coeff mtx i j' \<noteq> 0"
          by blast
        then show ?L by (intro exI [of _ j']) simp
      qed
    qed
    with b [of q] b1 [OF q] q show ?thesis by (simp add: m1)
  qed
  with step r l e m1 show ?case by auto
qed

lemma eigen_assign_rows_lin:
  assumes "0 \<le> i"
    and "n_rows m * n_cols m \<le> PackSize * int (length (data m))"
  shows "\<exists>d'. eigen_assign_rows m mtx i = Inr (m\<lparr>data := d'\<rparr>) \<and> length d' = length (data m) \<and>
          (\<forall>q. 0 \<le> q \<and> q < PackSize * int (length (data m)) \<longrightarrow>
             lin_bit d' q = (lin_bit (data m) q \<or>
               (\<exists>i' j'. i \<le> i' \<and> i' < n_rows m \<and> 0 \<le> j' \<and> j' < n_cols m \<and>
                  q = i' * n_cols m + j' \<and> coeff mtx i' j' \<noteq> 0)))"
  using assms
proof (induction "nat (n_rows m - i)" arbitrary: m i)
  case 0
  then have ni: "\<not> i < n_rows m" by simp
  then have "eigen_assign_rows m mtx i = Inr (m\<lparr>data := data m\<rparr>)"
    by (simp add: eigen_assign_rows.simps [of m mtx i])
  moreover from ni have "lin_bit (data m) q = (lin_bit (data m) q \<or>
       (\<exists>i' j'. i \<le> i' \<and> i' < n_rows m \<and> 0 \<le> j' \<and> j' < n_cols m \<and>
                  q = i' * n_cols m + j' \<and> coeff mtx i' j' \<noteq> 0))" for q
    by auto
  ultimately show ?case by (intro exI [of _ "data m"]) simp
next
  case (Suc k)
  then have il: "i < n_rows m" by simp
  from eigen_assign_cols_lin [OF Suc.prems(1) il order_refl Suc.prems(2), of mtx]
  obtain d1 where
    c: "eigen_assign_cols m mtx i 0 = Inr (m\<lparr>data := d1\<rparr>)"
    and l1: "length d1 = length (data m)"
    and b1: "\<And>q. 0 \<le> q \<Longrightarrow> q < PackSize * int (length (data m)) \<Longrightarrow>
             lin_bit d1 q = (lin_bit (data m) q \<or>
               (\<exists>j'. 0 \<le> j' \<and> j' < n_cols m \<and> q = i * n_cols m + j' \<and> coeff mtx i j' \<noteq> 0))"
    by blast
  let ?m1 = "m\<lparr>data := d1\<rparr>"
  have step: "eigen_assign_rows m mtx i = eigen_assign_rows ?m1 mtx (i + 1)"
    using il c by (simp add: eigen_assign_rows.simps [of m mtx i])
  have k: "k = nat (n_rows ?m1 - (i + 1))" using Suc.hyps(2) by simp
  from Suc.prems l1 have pre: "0 \<le> i + 1"
    "n_rows ?m1 * n_cols ?m1 \<le> PackSize * int (length (data ?m1))"
    by simp_all
  from Suc.hyps(1) [OF k pre] obtain d' where
    r: "eigen_assign_rows ?m1 mtx (i + 1) = Inr (?m1\<lparr>data := d'\<rparr>)"
    and l: "length d' = length (data ?m1)"
    and b: "\<And>q. 0 \<le> q \<Longrightarrow> q < PackSize * int (length (data ?m1)) \<Longrightarrow>
             lin_bit d' q = (lin_bit (data ?m1) q \<or>
               (\<exists>i' j'. i + 1 \<le> i' \<and> i' < n_rows ?m1 \<and> 0 \<le> j' \<and> j' < n_cols ?m1 \<and>
                  q = i' * n_cols ?m1 + j' \<and> coeff mtx i' j' \<noteq> 0))"
    by blast
  have e: "?m1\<lparr>data := d'\<rparr> = m\<lparr>data := d'\<rparr>" by simp
  have "lin_bit d' q = (lin_bit (data m) q \<or>
               (\<exists>i' j'. i \<le> i' \<and> i' < n_rows m \<and> 0 \<le> j' \<and> j' < n_cols m \<and>
                  q = i' * n_cols m + j' \<and> coeff mtx i' j' \<noteq> 0))"
    if q: "0 \<le> q" "q < PackSize * int (length (data m))" for q
  proof -
    have "(\<exists>i' j'. i \<le> i' \<and> i' < n_rows m \<and> 0 \<le> j' \<and> j' < n_cols m \<and>
                  q = i' * n_cols m + j' \<and> coeff mtx i' j' \<noteq> 0) \<longleftrightarrow>
          ((\<exists>j'. 0 \<le> j' \<and> j' < n_cols m \<and> q = i * n_cols m + j' \<and> coeff mtx i j' \<noteq> 0) \<or>
           (\<exists>i' j'. i + 1 \<le> i' \<and> i' < n_rows m \<and> 0 \<le> j' \<and> j' < n_cols m \<and>
                  q = i' * n_cols m + j' \<and> coeff mtx i' j' \<noteq> 0))"
      (is "?L \<longleftrightarrow> ?A \<or> ?R")
    proof
      assume ?L
      then obtain i' j' where j': "i \<le> i'" "i' < n_rows m" "0 \<le> j'" "j' < n_cols m"
         "q = i' * n_cols m + j'" "coeff mtx i' j' \<noteq> 0"
        by blast
      show "?A \<or> ?R"
      proof (cases "i' = i")
        case True with j' show ?thesis by blast
      next
        case False
        with j' have "i + 1 \<le> i'" by simp
        with j' show ?thesis by blast
      qed
    next
      assume "?A \<or> ?R"
      then show ?L
      proof
        assume ?A
        then obtain j' where "0 \<le> j'" "j' < n_cols m" "q = i * n_cols m + j'" "coeff mtx i j' \<noteq> 0"
          by blast
        with il show ?L by (intro exI [of _ i] exI [of _ j']) simp
      next
        assume ?R
        then obtain i' j' where "i + 1 \<le> i'" "i' < n_rows m" "0 \<le> j'" "j' < n_cols m"
          "q = i' * n_cols m + j'" "coeff mtx i' j' \<noteq> 0"
          by blast
        then show ?L by (intro exI [of _ i'] exI [of _ j']) simp
      qed
    qed
    with b [of q] b1 [OF q] q l1 show ?thesis by simp
  qed
  with step r l e l1 show ?case by auto
qed

lemma well_formed_storage:
  "well_formed m \<Longrightarrow> n_rows m * n_cols m \<le> PackSize * int (length (data m))"
  unfolding well_formed_def by (simp add: algebra_simps)

lemma eigen_cell_unique:
  fixes i j nc :: int
  assumes "0 \<le> j" "j < nc"
  shows "(\<exists>i' j'. 0 \<le> i' \<and> i' < nr \<and> 0 \<le> j' \<and> j' < nc \<and> i * nc + j = i' * nc + j' \<and> P i' j') \<longleftrightarrow>
         (0 \<le> i \<and> i < nr \<and> P i j)"
proof
  assume "\<exists>i' j'. 0 \<le> i' \<and> i' < nr \<and> 0 \<le> j' \<and> j' < nc \<and> i * nc + j = i' * nc + j' \<and> P i' j'"
  then obtain i' j' where h: "0 \<le> i'" "i' < nr" "0 \<le> j'" "j' < nc" "i * nc + j = i' * nc + j'" "P i' j'"
    by blast
  from lin_index_inj [OF assms h(3,4,5)] h show "0 \<le> i \<and> i < nr \<and> P i j" by simp
next
  assume "0 \<le> i \<and> i < nr \<and> P i j"
  with assms show "\<exists>i' j'. 0 \<le> i' \<and> i' < nr \<and> 0 \<le> j' \<and> j' < nc \<and> i * nc + j = i' * nc + j' \<and> P i' j'"
    by (intro exI [of _ i] exI [of _ j]) simp
qed

lemma eigen_assign_rows_cells:
  assumes st: "n_rows m * n_cols m \<le> PackSize * int (length (data m))"
  shows "\<exists>m'. eigen_assign_rows m mtx 0 = Inr m' \<and> n_rows m' = n_rows m \<and> n_cols m' = n_cols m \<and>
          (\<forall>i j. 0 \<le> i \<and> i < n_rows m \<and> 0 \<le> j \<and> j < n_cols m \<longrightarrow>
            BinaryMatrix_at m i j = Inr (lin_bit (data m) (i * n_cols m + j)) \<and>
            BinaryMatrix_at m' i j =
              Inr (lin_bit (data m) (i * n_cols m + j) \<or> coeff mtx i j \<noteq> 0))"
proof -
  from eigen_assign_rows_lin [OF order_refl st, of mtx] obtain d' where
    r: "eigen_assign_rows m mtx 0 = Inr (m\<lparr>data := d'\<rparr>)"
    and l: "length d' = length (data m)"
    and b: "\<And>q. 0 \<le> q \<Longrightarrow> q < PackSize * int (length (data m)) \<Longrightarrow>
             lin_bit d' q = (lin_bit (data m) q \<or>
               (\<exists>i' j'. 0 \<le> i' \<and> i' < n_rows m \<and> 0 \<le> j' \<and> j' < n_cols m \<and>
                  q = i' * n_cols m + j' \<and> coeff mtx i' j' \<noteq> 0))"
    by blast
  have "BinaryMatrix_at m i j = Inr (lin_bit (data m) (i * n_cols m + j)) \<and>
        BinaryMatrix_at (m\<lparr>data := d'\<rparr>) i j =
              Inr (lin_bit (data m) (i * n_cols m + j) \<or> coeff mtx i j \<noteq> 0)"
    if ij: "0 \<le> i" "i < n_rows m" "0 \<le> j" "j < n_cols m" for i j
  proof -
    let ?p = "i * n_cols m + j"
    from lin_index_bounds [OF ij] st
    have p: "0 \<le> ?p" "?p < PackSize * int (length (data m))" by simp_all
    then have pd: "?p div PackSize < int (length (data m))" by simp
    have 1: "BinaryMatrix_at m i j = Inr (lin_bit (data m) ?p)"
      by (rule BinaryMatrix_at_lin [OF p(1) pd])
    have "BinaryMatrix_at (m\<lparr>data := d'\<rparr>) i j = Inr (lin_bit d' ?p)"
      using BinaryMatrix_at_lin [of i "m\<lparr>data := d'\<rparr>" j] p(1) pd l by simp
    also have "lin_bit d' ?p = (lin_bit (data m) ?p \<or> coeff mtx i j \<noteq> 0)"
    proof -
      have u: "(\<exists>i' j'. 0 \<le> i' \<and> i' < n_rows m \<and> 0 \<le> j' \<and> j' < n_cols m \<and>
                  ?p = i' * n_cols m + j' \<and> coeff mtx i' j' \<noteq> 0) \<longleftrightarrow>
               (0 \<le> i \<and> i < n_rows m \<and> coeff mtx i j \<noteq> 0)"
        by (rule eigen_cell_unique [OF ij(3,4)])
      have "lin_bit d' ?p = (lin_bit (data m) ?p \<or> (0 \<le> i \<and> i < n_rows m \<and> coeff mtx i j \<noteq> 0))"
        using b [OF p] by (simp only: u)
      with ij(1,2) show ?thesis by simp
    qed
    finally show ?thesis using 1 by simp
  qed
  with r show ?thesis by (intro exI [of _ "m\<lparr>data := d'\<rparr>"]) simp
qed

lemma lin_bit_replicate_zero:
  "0 \<le> q \<Longrightarrow> q < PackSize * int n \<Longrightarrow> \<not> lin_bit (replicate n 0) q"
  by (simp add: lin_bit_def)

text \<open>
  C10. Assigning a dense numeric matrix to a statically-sized binary matrix (the
  \<open>static_assert\<close> admits only a source of the target's shape) does not clear the
  target: afterwards a cell is true exactly when it was true before or its source entry
  is not zero, so a cell that was true and whose source entry is zero stays true. A
  dynamically-sized target is resized first, which zero-fills it: afterwards a cell is
  true exactly when its source entry is not zero.
\<close>

theorem eigen_assign_static_keeps_true_cells:
  "(well_formed m \<and> ct_rows m = Some (n_rows m) \<and> ct_cols m = Some (n_cols m) \<and>
    eigen_rows mtx = n_rows m \<and> eigen_cols mtx = n_cols m \<longrightarrow>
      (\<exists>m'. eigen_assign m mtx = Inr m' \<and>
         (\<forall>i j. 0 \<le> i \<and> i < n_rows m \<and> 0 \<le> j \<and> j < n_cols m \<longrightarrow>
            (\<exists>b. BinaryMatrix_at m i j = Inr b \<and>
                 BinaryMatrix_at m' i j = Inr (b \<or> coeff mtx i j \<noteq> 0))))) \<and>
   (is_dynamic_sized m \<and> 0 \<le> eigen_rows mtx \<and> 0 \<le> eigen_cols mtx \<and>
    (ct_rows m = None \<or> (ct_rows m = Some 1 \<and> eigen_rows mtx = 1)) \<and>
    (ct_cols m = None \<or> (ct_cols m = Some 1 \<and> eigen_cols mtx = 1)) \<longrightarrow>
      (\<exists>m'. eigen_assign m mtx = Inr m' \<and>
         (\<forall>i j. 0 \<le> i \<and> i < eigen_rows mtx \<and> 0 \<le> j \<and> j < eigen_cols mtx \<longrightarrow>
            BinaryMatrix_at m' i j = Inr (coeff mtx i j \<noteq> 0))))"
proof (intro conjI impI)
  assume a: "well_formed m \<and> ct_rows m = Some (n_rows m) \<and> ct_cols m = Some (n_cols m) \<and>
    eigen_rows mtx = n_rows m \<and> eigen_cols mtx = n_cols m"
  then have e: "eigen_assign m mtx = eigen_assign_rows m mtx 0"
    by (simp add: eigen_assign_def is_dynamic_sized_def ebind_def)
  from a have st: "n_rows m * n_cols m \<le> PackSize * int (length (data m))"
    by (simp add: well_formed_storage)
  from eigen_assign_rows_cells [OF st, of mtx] obtain m' where
    r: "eigen_assign_rows m mtx 0 = Inr m'"
    and c: "\<And>i j. 0 \<le> i \<and> i < n_rows m \<and> 0 \<le> j \<and> j < n_cols m \<Longrightarrow>
            BinaryMatrix_at m i j = Inr (lin_bit (data m) (i * n_cols m + j)) \<and>
            BinaryMatrix_at m' i j =
              Inr (lin_bit (data m) (i * n_cols m + j) \<or> coeff mtx i j \<noteq> 0)"
    by blast
  show "\<exists>m'. eigen_assign m mtx = Inr m' \<and>
         (\<forall>i j. 0 \<le> i \<and> i < n_rows m \<and> 0 \<le> j \<and> j < n_cols m \<longrightarrow>
            (\<exists>b. BinaryMatrix_at m i j = Inr b \<and>
                 BinaryMatrix_at m' i j = Inr (b \<or> coeff mtx i j \<noteq> 0)))"
    using e r c by (intro exI [of _ m']) auto
next
  assume a: "is_dynamic_sized m \<and> 0 \<le> eigen_rows mtx \<and> 0 \<le> eigen_cols mtx \<and>
    (ct_rows m = None \<or> (ct_rows m = Some 1 \<and> eigen_rows mtx = 1)) \<and>
    (ct_cols m = None \<or> (ct_cols m = Some 1 \<and> eigen_cols mtx = 1))"
  let ?R = "eigen_rows mtx" and ?C = "eigen_cols mtx"
  define m2 where "m2 = m\<lparr>n_rows := ?R, n_cols := ?C,
       n_bitpacks := 1 + cdiv (?R * ?C) PackSize,
       data := replicate (nat (1 + cdiv (?R * ?C) PackSize)) 0\<rparr>"
  from a have e: "eigen_assign m mtx = eigen_assign_rows m2 mtx 0"
    by (auto simp: eigen_assign_def is_dynamic_sized_def ebind_def resize_def fdapde_assert_def
        m2_def Let_def)
  from a have nn: "0 \<le> ?R * ?C" by simp
  have d: "n_rows m2 = ?R" "n_cols m2 = ?C"
    "data m2 = replicate (nat (1 + (?R * ?C) div PackSize)) 0"
    using nn by (simp_all add: m2_def cdiv_nonneg)
  from nn have ln: "0 \<le> (?R * ?C) div PackSize"
    by (simp add: pos_imp_zdiv_nonneg_iff)
  then have st: "n_rows m2 * n_cols m2 \<le> PackSize * int (length (data m2))"
    by (simp add: d algebra_simps)
  from eigen_assign_rows_cells [OF st, of mtx] obtain m' where
    r: "eigen_assign_rows m2 mtx 0 = Inr m'"
    and c: "\<And>i j. 0 \<le> i \<and> i < n_rows m2 \<and> 0 \<le> j \<and> j < n_cols m2 \<Longrightarrow>
            BinaryMatrix_at m' i j =
              Inr (lin_bit (data m2) (i * n_cols m2 + j) \<or> coeff mtx i j \<noteq> 0)"
    by blast
  have "BinaryMatrix_at m' i j = Inr (coeff mtx i j \<noteq> 0)"
    if ij: "0 \<le> i \<and> i < ?R \<and> 0 \<le> j \<and> j < ?C" for i j
  proof -
    from ij have ij': "0 \<le> i" "i < ?R" "0 \<le> j" "j < ?C" by simp_all
    from lin_index_bounds [OF ij'] st
    have p: "0 \<le> i * ?C + j" "i * ?C + j < PackSize * int (length (data m2))"
      by (simp_all add: d(1,2))
    have "\<not> lin_bit (data m2) (i * n_cols m2 + j)"
      using lin_bit_replicate_zero [OF p(1), of "length (data m2)"] p(2)
      by (simp add: d)
    with c [of i j] ij show ?thesis by (simp add: d(1,2))
  qed
  with e r show "\<exists>m'. eigen_assign m mtx = Inr m' \<and>
         (\<forall>i j. 0 \<le> i \<and> i < ?R \<and> 0 \<le> j \<and> j < ?C \<longrightarrow>
            BinaryMatrix_at m' i j = Inr (coeff mtx i j \<noteq> 0))"
    by (intro exI [of _ m']) simp
qed

text \<open>
  A \<open>BinaryMatrix<2, 2>\<close> with cell \<open>(0, 0)\<close> set, assigned a 2 x 2 matrix whose only
  nonzero entry is at \<open>(1, 1)\<close>: cell \<open>(0, 0)\<close> stays true. The same storage under a
  dynamic shape: cell \<open>(0, 0)\<close> becomes false.
\<close>

theorem eigen_assign_static_keeps_true_cells_witness:
  "BinaryMatrix_set (BinaryMatrix_static 2 2) 0 0 =
     Inr \<lparr>ct_rows = Some 2, ct_cols = Some 2, n_rows = 2, n_cols = 2, n_bitpacks = 1, data = [1]\<rparr> \<and>
   coeff \<lparr>eigen_rows = 2, eigen_cols = 2, coeff = (\<lambda>i j. if i = 1 \<and> j = 1 then 7 else 0)\<rparr> 0 0 = 0 \<and>
   (\<exists>m'. eigen_assign
           \<lparr>ct_rows = Some 2, ct_cols = Some 2, n_rows = 2, n_cols = 2, n_bitpacks = 1, data = [1]\<rparr>
           \<lparr>eigen_rows = 2, eigen_cols = 2, coeff = (\<lambda>i j. if i = 1 \<and> j = 1 then 7 else 0)\<rparr> = Inr m' \<and>
         BinaryMatrix_at m' 0 0 = Inr True \<and> BinaryMatrix_at m' 1 1 = Inr True \<and>
         BinaryMatrix_at m' 0 1 = Inr False) \<and>
   (\<exists>m'. eigen_assign
           \<lparr>ct_rows = None, ct_cols = None, n_rows = 2, n_cols = 2, n_bitpacks = 1, data = [1]\<rparr>
           \<lparr>eigen_rows = 2, eigen_cols = 2, coeff = (\<lambda>i j. if i = 1 \<and> j = 1 then 7 else 0)\<rparr> = Inr m' \<and>
         BinaryMatrix_at m' 0 0 = Inr False \<and> BinaryMatrix_at m' 1 1 = Inr True)"
proof -
  define M :: BinaryMatrix where
    "M = \<lparr>ct_rows = Some 2, ct_cols = Some 2, n_rows = 2, n_cols = 2, n_bitpacks = 1, data = [1]\<rparr>"
  define D :: BinaryMatrix where
    "D = \<lparr>ct_rows = None, ct_cols = None, n_rows = 2, n_cols = 2, n_bitpacks = 1, data = [1]\<rparr>"
  define E :: EigenMatrix where
    "E = \<lparr>eigen_rows = 2, eigen_cols = 2, coeff = (\<lambda>i j. if i = 1 \<and> j = 1 then 7 else 0)\<rparr>"
  have s: "BinaryMatrix_set (BinaryMatrix_static 2 2) 0 0 = Inr M"
    unfolding M_def by code_simp
  have z: "coeff E 0 0 = 0" "coeff E 0 1 = 0" "coeff E 1 1 \<noteq> 0"
    by (simp_all add: E_def)
  have hs: "well_formed M \<and> ct_rows M = Some (n_rows M) \<and> ct_cols M = Some (n_cols M) \<and>
    eigen_rows E = n_rows M \<and> eigen_cols E = n_cols M"
    by (simp add: well_formed_def M_def E_def)
  have hd: "is_dynamic_sized D \<and> 0 \<le> eigen_rows E \<and> 0 \<le> eigen_cols E \<and>
    (ct_rows D = None \<or> (ct_rows D = Some 1 \<and> eigen_rows E = 1)) \<and>
    (ct_cols D = None \<or> (ct_cols D = Some 1 \<and> eigen_cols E = 1))"
    by (simp add: is_dynamic_sized_def D_def E_def)
  have a: "BinaryMatrix_at M 0 0 = Inr True" "BinaryMatrix_at M 1 1 = Inr False"
    "BinaryMatrix_at M 0 1 = Inr False"
    unfolding M_def by code_simp+
  have dm: "n_rows M = 2" "n_cols M = 2" "eigen_rows E = 2" "eigen_cols E = 2"
    by (simp_all add: M_def E_def)
  note T = eigen_assign_static_keeps_true_cells [of M E]
  from T [THEN conjunct1, rule_format, OF hs] obtain m' where
    r: "eigen_assign M E = Inr m'"
    and c: "\<And>i j. 0 \<le> i \<and> i < n_rows M \<and> 0 \<le> j \<and> j < n_cols M \<Longrightarrow>
            (\<exists>b. BinaryMatrix_at M i j = Inr b \<and>
                 BinaryMatrix_at m' i j = Inr (b \<or> coeff E i j \<noteq> 0))"
    by blast
  have c00: "BinaryMatrix_at m' 0 0 = Inr True" using c [of 0 0] a z by (auto simp: dm)
  have c11: "BinaryMatrix_at m' 1 1 = Inr True" using c [of 1 1] a z by (auto simp: dm)
  have c01: "BinaryMatrix_at m' 0 1 = Inr False" using c [of 0 1] a z by (auto simp: dm)
  from eigen_assign_static_keeps_true_cells [of D E, THEN conjunct2, rule_format, OF hd]
  obtain m'' where
    r': "eigen_assign D E = Inr m''"
    and c': "\<And>i j. 0 \<le> i \<and> i < eigen_rows E \<and> 0 \<le> j \<and> j < eigen_cols E \<Longrightarrow>
            BinaryMatrix_at m'' i j = Inr (coeff E i j \<noteq> 0)"
    by blast
  have d00: "BinaryMatrix_at m'' 0 0 = Inr False" using c' [of 0 0] z by (simp add: dm)
  have d11: "BinaryMatrix_at m'' 1 1 = Inr True" using c' [of 1 1] z by (simp add: dm)
  have 1: "\<exists>m'. eigen_assign M E = Inr m' \<and>
         BinaryMatrix_at m' 0 0 = Inr True \<and> BinaryMatrix_at m' 1 1 = Inr True \<and>
         BinaryMatrix_at m' 0 1 = Inr False"
    using r c00 c11 c01 by (intro exI [of _ m'] conjI)
  have 2: "\<exists>m'. eigen_assign D E = Inr m' \<and>
         BinaryMatrix_at m' 0 0 = Inr False \<and> BinaryMatrix_at m' 1 1 = Inr True"
    using r' d00 d11 by (intro exI [of _ m''] conjI)
  show ?thesis
    using conjI [OF s conjI [OF z(1) conjI [OF 1 2]]]
    unfolding M_def D_def E_def .
qed

subsection \<open>Comparison on sizes that are not a multiple of the word width\<close>

lemma shr_ones_mask:
  assumes "0 < r" "r < PackSize"
  shows "shr (NOT 0) (PackSize - r) = Inr (mask (nat r))"
proof -
  have "drop_bit (nat (64 - r)) (- 1 :: BitPackType) = mask (nat r)"
  proof (rule bit_word_eqI)
    fix n assume "n < LENGTH(64)"
    with assms show "bit (drop_bit (nat (64 - r)) (- 1 :: BitPackType)) n = bit (mask (nat r) :: BitPackType) n"
      by (auto simp: bit_simps)
  qed
  with assms show ?thesis by (simp add: shr_def)
qed

lemma shr_minus_one_mask:
  assumes "0 < r" "r < PackSize"
  shows "shr (- 1) (PackSize - r) = Inr (mask (nat r))"
  using shr_ones_mask [OF assms] by simp

lemma mask_and_eq_iff:
  fixes a b :: BitPackType
  shows "(mask r AND a) = (mask r AND b) \<longleftrightarrow> (\<forall>q < r. bit a q = bit b q)"
proof
  assume e: "(mask r AND a) = (mask r AND b)"
  show "\<forall>q < r. bit a q = bit b q"
  proof (intro allI impI)
    fix q assume q: "q < r"
    show "bit a q = bit b q"
    proof (cases "q < 64")
      case True
      from e have "bit (mask r AND a) q = bit (mask r AND b) q" by simp
      with q True show ?thesis by (simp add: bit_simps)
    next
      case False
      then have "\<not> bit a q" "\<not> bit b q" by (auto dest: bit_imp_le_length)
      then show ?thesis by simp
    qed
  qed
next
  assume "\<forall>q < r. bit a q = bit b q"
  then show "(mask r AND a) = (mask r AND b)"
    by (auto simp: bit_eq_iff bit_simps)
qed

lemma eq_loop_packs:
  assumes "\<forall>k. i \<le> k \<and> k < n \<longrightarrow> bitpack op1 k = Inr (f k) \<and> bitpack op2 k = Inr (g k)"
  shows "eq_loop op1 op2 n i r = Inr (r \<and> (\<forall>k. i \<le> k \<and> k < n \<longrightarrow> f k = g k))"
  using assms
proof (induction "nat (n - i)" arbitrary: i r)
  case 0
  then have "\<not> i < n" by simp
  then show ?case by (auto simp: eq_loop.simps [of op1 op2 n i r])
next
  case (Suc d)
  then have il: "i < n" by simp
  show ?case
  proof (cases r)
    case False
    then show ?thesis by (simp add: eq_loop.simps [of op1 op2 n i False])
  next
    case True
    from Suc.prems il have b: "bitpack op1 i = Inr (f i)" "bitpack op2 i = Inr (g i)" by simp_all
    have step: "eq_loop op1 op2 n i r = eq_loop op1 op2 n (i + 1) (f i = g i)"
      using il True b by (simp add: eq_loop.simps [of op1 op2 n i True])
    have d: "d = nat (n - (i + 1))" using Suc.hyps(2) by simp
    from Suc.prems have p: "\<forall>k. i + 1 \<le> k \<and> k < n \<longrightarrow> bitpack op1 k = Inr (f k) \<and> bitpack op2 k = Inr (g k)"
      by simp
    have "(\<forall>k. i \<le> k \<and> k < n \<longrightarrow> f k = g k) \<longleftrightarrow> (f i = g i \<and> (\<forall>k. i + 1 \<le> k \<and> k < n \<longrightarrow> f k = g k))"
    proof (intro iffI conjI allI impI)
      assume h: "\<forall>k. i \<le> k \<and> k < n \<longrightarrow> f k = g k"
      from h il show "f i = g i" by simp
      fix k assume "i + 1 \<le> k \<and> k < n" with h show "f k = g k" by simp
    next
      fix k assume h: "f i = g i \<and> (\<forall>k. i + 1 \<le> k \<and> k < n \<longrightarrow> f k = g k)" and k: "i \<le> k \<and> k < n"
      show "f k = g k"
      proof (cases "k = i")
        case True with h show ?thesis by simp
      next
        case False with k have "i + 1 \<le> k \<and> k < n" by simp
        with h show ?thesis by simp
      qed
    qed
    with Suc.hyps(1) [OF d p, of "f i = g i"] step True show ?thesis by simp
  qed
qed

lemma ne_loop_packs:
  assumes "\<forall>k. i \<le> k \<and> k < n \<longrightarrow> bitpack op1 k = Inr (f k) \<and> bitpack op2 k = Inr (g k)"
  shows "ne_loop op1 op2 n i r = Inr (r \<or> \<not> (\<forall>k. i \<le> k \<and> k < n \<longrightarrow> f k = g k))"
  using assms
proof (induction "nat (n - i)" arbitrary: i r)
  case 0
  then have "\<not> i < n" by simp
  then show ?case by (auto simp: ne_loop.simps [of op1 op2 n i r])
next
  case (Suc d)
  then have il: "i < n" by simp
  show ?case
  proof (cases r)
    case True
    then show ?thesis by (simp add: ne_loop.simps [of op1 op2 n i True])
  next
    case False
    from Suc.prems il have b: "bitpack op1 i = Inr (f i)" "bitpack op2 i = Inr (g i)" by simp_all
    have step: "ne_loop op1 op2 n i r = ne_loop op1 op2 n (i + 1) (f i \<noteq> g i)"
      using il False b by (simp add: ne_loop.simps [of op1 op2 n i False])
    have d: "d = nat (n - (i + 1))" using Suc.hyps(2) by simp
    from Suc.prems have p: "\<forall>k. i + 1 \<le> k \<and> k < n \<longrightarrow> bitpack op1 k = Inr (f k) \<and> bitpack op2 k = Inr (g k)"
      by simp
    have "(\<forall>k. i \<le> k \<and> k < n \<longrightarrow> f k = g k) \<longleftrightarrow> (f i = g i \<and> (\<forall>k. i + 1 \<le> k \<and> k < n \<longrightarrow> f k = g k))"
    proof (intro iffI conjI allI impI)
      assume h: "\<forall>k. i \<le> k \<and> k < n \<longrightarrow> f k = g k"
      from h il show "f i = g i" by simp
      fix k assume "i + 1 \<le> k \<and> k < n" with h show "f k = g k" by simp
    next
      fix k assume h: "f i = g i \<and> (\<forall>k. i + 1 \<le> k \<and> k < n \<longrightarrow> f k = g k)" and k: "i \<le> k \<and> k < n"
      show "f k = g k"
      proof (cases "k = i")
        case True with h show ?thesis by simp
      next
        case False with k have "i + 1 \<le> k \<and> k < n" by simp
        with h show ?thesis by simp
      qed
    qed
    with Suc.hyps(1) [OF d p, of "f i \<noteq> g i"] step False show ?thesis by simp
  qed
qed

lemma packs_eq_iff_bits:
  fixes f g :: "int \<Rightarrow> BitPackType"
  assumes "0 \<le> n" "0 \<le> r" "r < PackSize"
  shows "((\<forall>k. 0 \<le> k \<and> k < n \<longrightarrow> f k = g k) \<and> (\<forall>q < nat r. bit (f n) q = bit (g n) q)) \<longleftrightarrow>
         (\<forall>p. 0 \<le> p \<and> p < PackSize * n + r \<longrightarrow>
            bit (f (p div PackSize)) (nat (p mod PackSize)) = bit (g (p div PackSize)) (nat (p mod PackSize)))"
    (is "?A \<and> ?B \<longleftrightarrow> ?C")
proof
  assume ab: "?A \<and> ?B"
  show ?C
  proof (rule allI, rule impI)
    fix p assume p: "0 \<le> p \<and> p < PackSize * n + r"
    show "bit (f (p div PackSize)) (nat (p mod PackSize)) = bit (g (p div PackSize)) (nat (p mod PackSize))"
    proof (cases "p div PackSize < n")
      case True
      moreover from p have "0 \<le> p div PackSize" by (simp add: pos_imp_zdiv_nonneg_iff)
      ultimately show ?thesis using ab by simp
    next
      case False
      from p assms have "p < PackSize * (n + 1)" by simp
      then have "p div PackSize < n + 1" by simp
      then have "p div PackSize \<le> n" by simp
      with False have e: "p div PackSize = n" by simp
      have "p = PackSize * (p div PackSize) + p mod PackSize" by simp
      with e have "p = PackSize * n + p mod PackSize" by simp
      with p have "p mod PackSize < r" by simp
      then have "nat (p mod PackSize) < nat r" using assms by simp
      with ab e show ?thesis by simp
    qed
  qed
next
  assume c: ?C
  have a: ?A
  proof (rule allI, rule impI)
    fix k assume k: "0 \<le> k \<and> k < n"
    show "f k = g k"
    proof (rule bit_word_eqI)
      fix q assume "q < LENGTH(64)"
      then have q: "q < 64" by simp
      let ?p = "PackSize * k + int q"
      from q have d: "?p div PackSize = k" "?p mod PackSize = int q" by simp_all
      from k q assms have "0 \<le> ?p \<and> ?p < PackSize * n + r" by simp
      with c have "bit (f (?p div PackSize)) (nat (?p mod PackSize)) =
                   bit (g (?p div PackSize)) (nat (?p mod PackSize))" by blast
      then show "bit (f k) q = bit (g k) q" by (simp only: d nat_int)
    qed
  qed
  have b: ?B
  proof (rule allI, rule impI)
    fix q assume q: "q < nat r"
    let ?p = "PackSize * n + int q"
    from q assms have q64: "q < 64" by simp
    then have d: "?p div PackSize = n" "?p mod PackSize = int q" by simp_all
    from q assms have "0 \<le> ?p \<and> ?p < PackSize * n + r" by simp
    with c have "bit (f (?p div PackSize)) (nat (?p mod PackSize)) =
                 bit (g (?p div PackSize)) (nat (?p mod PackSize))" by blast
    then show "bit (f n) q = bit (g n) q" by (simp only: d nat_int)
  qed
  from a b show "?A \<and> ?B" ..
qed

lemma operator_eq_ne_packs:
  assumes dims: "rows op1 = rows op2" "cols op1 = cols op2"
    and bp: "bitpacks op1 = 1 + size_xpr op1 div PackSize"
    and sz: "0 \<le> size_xpr op1" "size_xpr op1 mod PackSize \<noteq> 0"
    and P: "\<forall>k. 0 \<le> k \<and> k \<le> size_xpr op1 div PackSize \<longrightarrow>
              bitpack op1 k = Inr (f k) \<and> bitpack op2 k = Inr (g k)"
  shows "operator_eq op1 op2 =
           Inr (\<forall>p. 0 \<le> p \<and> p < size_xpr op1 \<longrightarrow>
                  bit (f (p div PackSize)) (nat (p mod PackSize)) =
                  bit (g (p div PackSize)) (nat (p mod PackSize)))"
    and "operator_ne op1 op2 =
           Inr (\<not> (\<forall>p. 0 \<le> p \<and> p < size_xpr op1 \<longrightarrow>
                  bit (f (p div PackSize)) (nat (p mod PackSize)) =
                  bit (g (p div PackSize)) (nat (p mod PackSize))))"
proof -
  define n where "n = size_xpr op1 div PackSize"
  define r where "r = size_xpr op1 mod PackSize"
  have n0: "0 \<le> n" using sz(1) by (simp add: n_def pos_imp_zdiv_nonneg_iff)
  have r: "0 < r" "r < PackSize"
    using sz(2) pos_mod_sign [of PackSize "size_xpr op1"] pos_mod_bound [of PackSize "size_xpr op1"]
    by (simp_all add: r_def)
  have s: "size_xpr op1 = PackSize * n + r" by (simp add: n_def r_def)
  have bn: "bitpacks op1 - 1 = n" by (simp add: bp n_def)
  have sh: "PackSize - (size_xpr op1 - PackSize * n) = PackSize - r" by (simp add: s)
  from P have Pl: "\<forall>k. 0 \<le> k \<and> k < n \<longrightarrow> bitpack op1 k = Inr (f k) \<and> bitpack op2 k = Inr (g k)"
    by (simp add: n_def)
  from P n0 have Pn: "bitpack op1 n = Inr (f n)" "bitpack op2 n = Inr (g n)"
    by (simp_all add: n_def)
  have E: "eq_loop op1 op2 n 0 True = Inr (\<forall>k. 0 \<le> k \<and> k < n \<longrightarrow> f k = g k)"
    using eq_loop_packs [OF Pl, of True] by simp
  have N: "ne_loop op1 op2 n 0 False = Inr (\<not> (\<forall>k. 0 \<le> k \<and> k < n \<longrightarrow> f k = g k))"
    using ne_loop_packs [OF Pl, of False] by simp
  note I = packs_eq_iff_bits [OF n0 less_imp_le [OF r(1)] r(2), of f g, folded s]
  have "operator_eq op1 op2 =
      Inr ((\<forall>k. 0 \<le> k \<and> k < n \<longrightarrow> f k = g k) \<and> (\<forall>q < nat r. bit (f n) q = bit (g n) q))"
    unfolding operator_eq_def fdapde_assert_def Let_def bn sh
    by (simp add: dims E shr_minus_one_mask [OF r] Pn ebind_def mask_and_eq_iff)
  then show "operator_eq op1 op2 =
           Inr (\<forall>p. 0 \<le> p \<and> p < size_xpr op1 \<longrightarrow>
                  bit (f (p div PackSize)) (nat (p mod PackSize)) =
                  bit (g (p div PackSize)) (nat (p mod PackSize)))"
    by (simp only: I)
  have "operator_ne op1 op2 =
      Inr (\<not> ((\<forall>k. 0 \<le> k \<and> k < n \<longrightarrow> f k = g k) \<and> (\<forall>q < nat r. bit (f n) q = bit (g n) q)))"
    unfolding operator_ne_def fdapde_assert_def Let_def bn sh
    by (simp add: dims N shr_minus_one_mask [OF r] Pn ebind_def mask_and_eq_iff)
  then show "operator_ne op1 op2 =
           Inr (\<not> (\<forall>p. 0 \<le> p \<and> p < size_xpr op1 \<longrightarrow>
                  bit (f (p div PackSize)) (nat (p mod PackSize)) =
                  bit (g (p div PackSize)) (nat (p mod PackSize))))"
    by (simp only: I)
qed

lemma div_less_rows:
  fixes p nr nc :: int
  assumes "0 \<le> p" "p < nr * nc" "0 < nc"
  shows "p div nc < nr"
proof (rule ccontr)
  assume "\<not> p div nc < nr"
  then have "nr \<le> p div nc" by simp
  with assms(3) have "nr * nc \<le> (p div nc) * nc" by (intro mult_right_mono) simp_all
  also have "\<dots> \<le> p"
  proof -
    have "p = (p div nc) * nc + p mod nc" by simp
    moreover have "0 \<le> p mod nc" using assms(3) by simp
    ultimately show ?thesis by linarith
  qed
  finally show False using assms(2) by simp
qed

lemma cells_iff_positions:
  fixes nr nc :: int
  assumes "0 \<le> nr" "0 \<le> nc"
  shows "(\<forall>p. 0 \<le> p \<and> p < nr * nc \<longrightarrow> Q p) \<longleftrightarrow>
         (\<forall>i j. 0 \<le> i \<and> i < nr \<and> 0 \<le> j \<and> j < nc \<longrightarrow> Q (i * nc + j))"
proof
  assume h: "\<forall>p. 0 \<le> p \<and> p < nr * nc \<longrightarrow> Q p"
  show "\<forall>i j. 0 \<le> i \<and> i < nr \<and> 0 \<le> j \<and> j < nc \<longrightarrow> Q (i * nc + j)"
  proof (intro allI impI)
    fix i j assume "0 \<le> i \<and> i < nr \<and> 0 \<le> j \<and> j < nc"
    then have ij: "0 \<le> i" "i < nr" "0 \<le> j" "j < nc" by simp_all
    from lin_index_bounds [OF ij] h show "Q (i * nc + j)" by simp
  qed
next
  assume h: "\<forall>i j. 0 \<le> i \<and> i < nr \<and> 0 \<le> j \<and> j < nc \<longrightarrow> Q (i * nc + j)"
  show "\<forall>p. 0 \<le> p \<and> p < nr * nc \<longrightarrow> Q p"
  proof (intro allI impI)
    fix p assume "0 \<le> p \<and> p < nr * nc"
    then have p: "0 \<le> p" "p < nr * nc" by simp_all
    have nc: "0 < nc"
    proof (rule ccontr)
      assume "\<not> 0 < nc" with assms have "nc = 0" by simp
      with p show False by simp
    qed
    have "0 \<le> p div nc" using p nc by (simp add: pos_imp_zdiv_nonneg_iff)
    moreover have "p div nc < nr" by (rule div_less_rows [OF p nc])
    moreover have "0 \<le> p mod nc" "p mod nc < nc" using nc by simp_all
    ultimately have "Q ((p div nc) * nc + p mod nc)" using h by blast
    then show "Q p" by simp
  qed
qed

lemma well_formed_bitpack:
  assumes "well_formed m" "0 \<le> k" "k \<le> (n_rows m * n_cols m) div PackSize"
  shows "bitpack (Mtx m) k = Inr (data m ! nat k)"
  using assms by (simp add: well_formed_def BinaryMatrix_bitpack_def data_read_def)

lemma well_formed_at:
  assumes "well_formed m" "0 \<le> i" "i < n_rows m" "0 \<le> j" "j < n_cols m"
  shows "BinaryMatrix_at m i j = Inr (lin_bit (data m) (i * n_cols m + j))"
proof -
  from lin_index_bounds [OF assms(2-5)] well_formed_storage [OF assms(1)]
  have p: "0 \<le> i * n_cols m + j" "i * n_cols m + j < PackSize * int (length (data m))"
    by simp_all
  then have "(i * n_cols m + j) div PackSize < int (length (data m))" by simp
  with p(1) show ?thesis by (rule BinaryMatrix_at_lin)
qed

lemma well_formed_size:
  assumes "well_formed m"
  shows "0 \<le> n_rows m * n_cols m" "n_bitpacks m = 1 + (n_rows m * n_cols m) div PackSize"
  using assms by (simp_all add: well_formed_def)

text \<open>
  Where the size is not a multiple of \<open>PackSize\<close>, the two comparison operators are
  right on well-formed concrete matrices: \<open>operator==\<close> is true exactly when all
  logical elements agree, and \<open>operator!=\<close> is its negation.
\<close>

lemma operator_eq_concrete:
  assumes wf: "well_formed m1" "well_formed m2"
    and dims: "n_rows m1 = n_rows m2" "n_cols m1 = n_cols m2"
    and part: "(n_rows m1 * n_cols m1) mod PackSize \<noteq> 0"
  shows "operator_eq (Mtx m1) (Mtx m2) =
           Inr (\<forall>i j. 0 \<le> i \<and> i < n_rows m1 \<and> 0 \<le> j \<and> j < n_cols m1 \<longrightarrow>
                  BinaryMatrix_at m1 i j = BinaryMatrix_at m2 i j) \<and>
         operator_ne (Mtx m1) (Mtx m2) =
           Inr (\<not> (\<forall>i j. 0 \<le> i \<and> i < n_rows m1 \<and> 0 \<le> j \<and> j < n_cols m1 \<longrightarrow>
                  BinaryMatrix_at m1 i j = BinaryMatrix_at m2 i j))"
proof -
  let ?sz = "n_rows m1 * n_cols m1"
  have P: "\<forall>k. 0 \<le> k \<and> k \<le> size_xpr (Mtx m1) div PackSize \<longrightarrow>
             bitpack (Mtx m1) k = Inr (data m1 ! nat k) \<and> bitpack (Mtx m2) k = Inr (data m2 ! nat k)"
    using well_formed_bitpack [OF wf(1)] well_formed_bitpack [OF wf(2)] dims
    by (simp add: size_xpr_def)
  have d: "rows (Mtx m1) = rows (Mtx m2)" "cols (Mtx m1) = cols (Mtx m2)"
    using dims by simp_all
  have bp: "bitpacks (Mtx m1) = 1 + size_xpr (Mtx m1) div PackSize"
    using well_formed_size(2) [OF wf(1)] by (simp add: size_xpr_def)
  have sz: "0 \<le> size_xpr (Mtx m1)" "size_xpr (Mtx m1) mod PackSize \<noteq> 0"
    using well_formed_size(1) [OF wf(1)] part by (simp_all add: size_xpr_def)
  have I: "(\<forall>p. 0 \<le> p \<and> p < size_xpr (Mtx m1) \<longrightarrow>
              bit (data m1 ! nat (p div PackSize)) (nat (p mod PackSize)) =
              bit (data m2 ! nat (p div PackSize)) (nat (p mod PackSize))) \<longleftrightarrow>
           (\<forall>i j. 0 \<le> i \<and> i < n_rows m1 \<and> 0 \<le> j \<and> j < n_cols m1 \<longrightarrow>
                  BinaryMatrix_at m1 i j = BinaryMatrix_at m2 i j)"
  proof -
    have nn: "0 \<le> n_rows m1" "0 \<le> n_cols m1" using wf(1) by (simp_all add: well_formed_def)
    have "(\<forall>p. 0 \<le> p \<and> p < ?sz \<longrightarrow> lin_bit (data m1) p = lin_bit (data m2) p) \<longleftrightarrow>
          (\<forall>i j. 0 \<le> i \<and> i < n_rows m1 \<and> 0 \<le> j \<and> j < n_cols m1 \<longrightarrow>
             lin_bit (data m1) (i * n_cols m1 + j) = lin_bit (data m2) (i * n_cols m1 + j))"
      by (rule cells_iff_positions [OF nn])
    also have "\<dots> \<longleftrightarrow> (\<forall>i j. 0 \<le> i \<and> i < n_rows m1 \<and> 0 \<le> j \<and> j < n_cols m1 \<longrightarrow>
                  BinaryMatrix_at m1 i j = BinaryMatrix_at m2 i j)"
      using well_formed_at [OF wf(1)] well_formed_at [OF wf(2)] dims by auto
    finally show ?thesis by (simp add: lin_bit_def size_xpr_def)
  qed
  from operator_eq_ne_packs [OF d bp sz P] show ?thesis
    by (simp only: I simp_thms)
qed

text \<open>Operands of different run-time dimensions fail the assertion of both operators.\<close>

lemma operator_eq_ne_mismatch:
  assumes "rows op1 \<noteq> rows op2 \<or> cols op1 \<noteq> cols op2"
  shows "operator_eq op1 op2 = Inl AssertionFailure" "operator_ne op1 op2 = Inl AssertionFailure"
  using assms by (auto simp: operator_eq_def operator_ne_def fdapde_assert_def)

subsection \<open>The identity of the expression test\<close>

text \<open>
  C6. The claim: for all \<open>m1\<close>, \<open>m2\<close> of equal shape,
  \<open>((m1 ^ m2) | (m1 & m2)) == m2\<close>.

  The left side is \<open>m1 | m2\<close>, which is \<open>m2\<close> only when \<open>m2\<close> covers \<open>m1\<close>. With
  \<open>m1\<close> a 4 x 5 matrix whose only true cell is \<open>(2, 2)\<close> and \<open>m2\<close> the zero 4 x 5
  matrix, the comparison is false.
\<close>

theorem xor_or_and_equals_rhs_counterexample:
  "BinaryMatrix_set (BinaryMatrix_dynamic None None 4 5) 2 2 =
     Inr \<lparr>ct_rows = None, ct_cols = None, n_rows = 4, n_cols = 5, n_bitpacks = 1, data = [4096]\<rparr> \<and>
   operator_eq
     (BinMtxBinaryOp bit_or
        (BinMtxBinaryOp bit_xor
           (Mtx \<lparr>ct_rows = None, ct_cols = None, n_rows = 4, n_cols = 5, n_bitpacks = 1, data = [4096]\<rparr>)
           (Mtx (BinaryMatrix_dynamic None None 4 5)))
        (BinMtxBinaryOp bit_and
           (Mtx \<lparr>ct_rows = None, ct_cols = None, n_rows = 4, n_cols = 5, n_bitpacks = 1, data = [4096]\<rparr>)
           (Mtx (BinaryMatrix_dynamic None None 4 5))))
     (Mtx (BinaryMatrix_dynamic None None 4 5)) = Inr False"
  by code_simp

lemma xor_or_and_word:
  fixes a b :: BitPackType
  shows "(a XOR b) OR (a AND b) = a OR b"
  by (rule bit_word_eqI) (auto simp: bit_simps)

lemma bit_or_eq_right_iff:
  fixes a b :: BitPackType
  shows "bit (a OR b) q = bit b q \<longleftrightarrow> (bit a q \<longrightarrow> bit b q)"
  by (auto simp: bit_simps)

text \<open>
  C6, amended. For all well-formed \<open>m1\<close>, \<open>m2\<close> of equal shape whose size is not a
  multiple of \<open>PackSize\<close>: \<open>((m1 ^ m2) | (m1 & m2)) == (m1 | m2)\<close> holds, and
  \<open>((m1 ^ m2) | (m1 & m2)) == m2\<close> holds exactly when every true cell of \<open>m1\<close> is true
  in \<open>m2\<close>. (For a size that is a multiple of \<open>PackSize\<close> the comparison itself has no
  defined result, see C5; nothing is said about it here.)
\<close>

theorem xor_or_and_equals_rhs_iff_subset:
  assumes wf: "well_formed m1" "well_formed m2"
    and dims: "n_rows m1 = n_rows m2" "n_cols m1 = n_cols m2"
    and part: "(n_rows m1 * n_cols m1) mod PackSize \<noteq> 0"
  shows "ebind (binary_operator bit_xor (Mtx m1) (Mtx m2)) (\<lambda>x.
         ebind (binary_operator bit_and (Mtx m1) (Mtx m2)) (\<lambda>a.
         ebind (binary_operator bit_or x a) (\<lambda>lhs.
         ebind (binary_operator bit_or (Mtx m1) (Mtx m2)) (\<lambda>m1_or_m2.
         ebind (operator_eq lhs m1_or_m2) (\<lambda>e1.
         ebind (operator_eq lhs (Mtx m2)) (\<lambda>e2.
         Inr (e1, e2))))))) =
         Inr (True,
              \<forall>i j. 0 \<le> i \<and> i < n_rows m1 \<and> 0 \<le> j \<and> j < n_cols m1 \<longrightarrow>
                (BinaryMatrix_at m1 i j = Inr True \<longrightarrow> BinaryMatrix_at m2 i j = Inr True))"
proof -
  let ?x = "BinMtxBinaryOp bit_xor (Mtx m1) (Mtx m2)"
  let ?a = "BinMtxBinaryOp bit_and (Mtx m1) (Mtx m2)"
  let ?l = "BinMtxBinaryOp bit_or ?x ?a"
  let ?o = "BinMtxBinaryOp bit_or (Mtx m1) (Mtx m2)"
  let ?sz = "n_rows m1 * n_cols m1"
  let ?f = "\<lambda>k. data m1 ! nat k OR data m2 ! nat k"
  let ?g = "\<lambda>k. data m2 ! nat k"
  have c: "binary_operator bit_xor (Mtx m1) (Mtx m2) = Inr ?x"
    "binary_operator bit_and (Mtx m1) (Mtx m2) = Inr ?a"
    "binary_operator bit_or ?x ?a = Inr ?l"
    "binary_operator bit_or (Mtx m1) (Mtx m2) = Inr ?o"
    using dims by (simp_all add: binary_operator_def fdapde_assert_def)
  have nn: "0 \<le> ?sz" using well_formed_size(1) [OF wf(1)] .
  have bp: "bitpacks ?l = 1 + size_xpr ?l div PackSize"
    using nn by (simp add: base_bitpacks_def cdiv_nonneg size_xpr_def)
  have sz: "0 \<le> size_xpr ?l" "size_xpr ?l mod PackSize \<noteq> 0"
    using nn part by (simp_all add: size_xpr_def)
  have b1: "bitpack (Mtx m1) k = Inr (data m1 ! nat k)" "bitpack (Mtx m2) k = Inr (data m2 ! nat k)"
    if "0 \<le> k \<and> k \<le> ?sz div PackSize" for k
    using that well_formed_bitpack [OF wf(1), of k] well_formed_bitpack [OF wf(2), of k] dims
    by simp_all
  have Pl: "bitpack ?l k = Inr (?f k)" if "0 \<le> k \<and> k \<le> ?sz div PackSize" for k
    using b1 [OF that] by (simp add: ebind_def xor_or_and_word del: bitpack.simps(1))
  have Po: "bitpack ?o k = Inr (?f k)" if "0 \<le> k \<and> k \<le> ?sz div PackSize" for k
    using b1 [OF that] by (simp add: ebind_def del: bitpack.simps(1))
  have P1: "\<forall>k. 0 \<le> k \<and> k \<le> size_xpr ?l div PackSize \<longrightarrow>
              bitpack ?l k = Inr (?f k) \<and> bitpack ?o k = Inr (?f k)"
    using Pl Po by (simp add: size_xpr_def)
  have P2: "\<forall>k. 0 \<le> k \<and> k \<le> size_xpr ?l div PackSize \<longrightarrow>
              bitpack ?l k = Inr (?f k) \<and> bitpack (Mtx m2) k = Inr (?g k)"
    using Pl b1(2) by (simp add: size_xpr_def)
  have e1: "operator_eq ?l ?o = Inr True"
    using operator_eq_ne_packs(1) [OF _ _ bp sz P1] by simp
  have e2: "operator_eq ?l (Mtx m2) =
      Inr (\<forall>p. 0 \<le> p \<and> p < ?sz \<longrightarrow> (lin_bit (data m1) p \<longrightarrow> lin_bit (data m2) p))"
    using operator_eq_ne_packs(1) [OF _ _ bp sz P2] dims
    by (simp add: bit_or_eq_right_iff lin_bit_def size_xpr_def)
  have nn2: "0 \<le> n_rows m1" "0 \<le> n_cols m1" using wf(1) by (simp_all add: well_formed_def)
  have "(\<forall>p. 0 \<le> p \<and> p < ?sz \<longrightarrow> (lin_bit (data m1) p \<longrightarrow> lin_bit (data m2) p)) \<longleftrightarrow>
        (\<forall>i j. 0 \<le> i \<and> i < n_rows m1 \<and> 0 \<le> j \<and> j < n_cols m1 \<longrightarrow>
           (lin_bit (data m1) (i * n_cols m1 + j) \<longrightarrow> lin_bit (data m2) (i * n_cols m1 + j)))"
    by (rule cells_iff_positions [OF nn2])
  also have "\<dots> \<longleftrightarrow> (\<forall>i j. 0 \<le> i \<and> i < n_rows m1 \<and> 0 \<le> j \<and> j < n_cols m1 \<longrightarrow>
                (BinaryMatrix_at m1 i j = Inr True \<longrightarrow> BinaryMatrix_at m2 i j = Inr True))"
    using well_formed_at [OF wf(1)] well_formed_at [OF wf(2)] dims by auto
  finally have I: "(\<forall>p. 0 \<le> p \<and> p < ?sz \<longrightarrow> (lin_bit (data m1) p \<longrightarrow> lin_bit (data m2) p)) \<longleftrightarrow>
      (\<forall>i j. 0 \<le> i \<and> i < n_rows m1 \<and> 0 \<le> j \<and> j < n_cols m1 \<longrightarrow>
                (BinaryMatrix_at m1 i j = Inr True \<longrightarrow> BinaryMatrix_at m2 i j = Inr True))" .
  show ?thesis
    by (simp only: c e1 e2 I ebind_def sum.case)
qed

text \<open>
  The matrices of the repository's test: \<open>m1\<close> is 4 x 5 with \<open>(3, 3)\<close> set, \<open>m2\<close> is
  4 x 5 with \<open>(2, 2)\<close> and \<open>(3, 3)\<close> set; no cell of \<open>m1\<close> is missing from \<open>m2\<close>.
\<close>

theorem xor_or_and_equals_rhs_iff_subset_witness:
  "well_formed \<lparr>ct_rows = None, ct_cols = None, n_rows = 4, n_cols = 5, n_bitpacks = 1, data = [262144]\<rparr> \<and>
   well_formed \<lparr>ct_rows = None, ct_cols = None, n_rows = 4, n_cols = 5, n_bitpacks = 1, data = [266240]\<rparr> \<and>
   ((4::int) * 5) mod PackSize \<noteq> 0 \<and>
   BinaryMatrix_set (BinaryMatrix_dynamic None None 4 5) 3 3 =
     Inr \<lparr>ct_rows = None, ct_cols = None, n_rows = 4, n_cols = 5, n_bitpacks = 1, data = [262144]\<rparr> \<and>
   BinaryMatrix_set \<lparr>ct_rows = None, ct_cols = None, n_rows = 4, n_cols = 5, n_bitpacks = 1, data = [262144]\<rparr> 2 2 =
     Inr \<lparr>ct_rows = None, ct_cols = None, n_rows = 4, n_cols = 5, n_bitpacks = 1, data = [266240]\<rparr> \<and>
   \<not> (\<exists>i j. 0 \<le> i \<and> i < 4 \<and> 0 \<le> j \<and> j < 5 \<and>
      BinaryMatrix_at \<lparr>ct_rows = None, ct_cols = None, n_rows = 4, n_cols = 5, n_bitpacks = 1, data = [262144]\<rparr> i j
        = Inr True \<and>
      BinaryMatrix_at \<lparr>ct_rows = None, ct_cols = None, n_rows = 4, n_cols = 5, n_bitpacks = 1, data = [266240]\<rparr> i j
        \<noteq> Inr True)"
proof -
  define M1 :: BinaryMatrix where
    "M1 = \<lparr>ct_rows = None, ct_cols = None, n_rows = 4, n_cols = 5, n_bitpacks = 1, data = [262144]\<rparr>"
  define M2 :: BinaryMatrix where
    "M2 = \<lparr>ct_rows = None, ct_cols = None, n_rows = 4, n_cols = 5, n_bitpacks = 1, data = [266240]\<rparr>"
  have wf: "well_formed M1" "well_formed M2"
    by (simp_all add: well_formed_def M1_def M2_def)
  have dims: "n_rows M1 = n_rows M2" "n_cols M1 = n_cols M2"
    by (simp_all add: M1_def M2_def)
  have d: "n_rows M1 = 4" "n_cols M1 = 5" by (simp_all add: M1_def)
  have part: "(n_rows M1 * n_cols M1) mod PackSize \<noteq> 0" by (simp add: d)
  have p': "((4::int) * 5) mod PackSize \<noteq> 0" by simp
  have s1: "BinaryMatrix_set (BinaryMatrix_dynamic None None 4 5) 3 3 = Inr M1"
    unfolding M1_def by code_simp
  have s2: "BinaryMatrix_set M1 2 2 = Inr M2"
    unfolding M1_def M2_def by code_simp
  have ev: "ebind (binary_operator bit_xor (Mtx M1) (Mtx M2)) (\<lambda>x.
         ebind (binary_operator bit_and (Mtx M1) (Mtx M2)) (\<lambda>a.
         ebind (binary_operator bit_or x a) (\<lambda>lhs.
         ebind (binary_operator bit_or (Mtx M1) (Mtx M2)) (\<lambda>m1_or_m2.
         ebind (operator_eq lhs m1_or_m2) (\<lambda>e1.
         ebind (operator_eq lhs (Mtx M2)) (\<lambda>e2.
         Inr (e1, e2))))))) = Inr (True, True)"
    unfolding M1_def M2_def by code_simp
  from xor_or_and_equals_rhs_iff_subset [OF wf dims part]
  have q: "\<forall>i j. 0 \<le> i \<and> i < n_rows M1 \<and> 0 \<le> j \<and> j < n_cols M1 \<longrightarrow>
                (BinaryMatrix_at M1 i j = Inr True \<longrightarrow> BinaryMatrix_at M2 i j = Inr True)"
    by (simp only: ev sum.inject prod.inject simp_thms)
  have n: "\<not> (\<exists>i j. 0 \<le> i \<and> i < 4 \<and> 0 \<le> j \<and> j < 5 \<and>
      BinaryMatrix_at M1 i j = Inr True \<and> BinaryMatrix_at M2 i j \<noteq> Inr True)"
    using q unfolding d by blast
  show ?thesis
    using conjI [OF wf(1) conjI [OF wf(2) conjI [OF p' conjI [OF s1 conjI [OF s2 n]]]]]
    unfolding M1_def M2_def .
qed

end
